theory Spec2Isabelle
  imports Main "HOL-Library.Word"
begin

unbundle bit_operations_syntax

section \<open>The USB printer bridge (bridge.py) as a shallow embedding\<close>

text \<open>
  The class \<open>USBPrinterBridge\<close> drives two libraries, pyusb and the operating system
  (\<open>os\<close>, \<open>pty\<close>, \<open>select\<close>). The model keeps the object's fields in a record, passes
  it through every method, and records each library call in a trace of events. What a
  library call answers (a value, or an exception) is an input of the model, so that
  every path of the source, including every \<open>except\<close> clause, is a branch of it.

  Two things are taken as given. Writing to the console (\<open>print\<close>, \<open>flush\<close>) does not
  fail. What a library call raises is an instance of \<open>Exception\<close>; \<open>KeyboardInterrupt\<close>
  and \<open>SystemExit\<close>, which a signal can raise at any point, are not modelled. The two
  loops run in different threads; each is modelled on its own, and what the other
  thread does to the shared object (it can only set the stop flag) is an input of each
  iteration.
\<close>

subsection \<open>Exceptions\<close>

text \<open>
  The instances of Python's \<open>Exception\<close> that the calls of the source raise or catch.
  \<open>USBError\<close> carries its \<open>errno\<close>; pyusb declares it as a subclass of \<open>IOError\<close>,
  which is \<open>OSError\<close>, so \<open>except OSError\<close> catches it too. \<open>RuntimeError\<close> is what
  \<open>start\<close> raises itself. \<open>OtherException\<close> stands for any other subclass of
  \<open>Exception\<close> (\<open>ValueError\<close>, \<open>TypeError\<close>, ...).
\<close>

datatype exn =
    USBError nat
  | OSError nat
  | NotImplementedError
  | AttributeError
  | IndexError
  | RuntimeError string
  | OtherException string

definition EBADF :: nat where
  "EBADF = 9"

definition ETIMEDOUT :: nat where
  "ETIMEDOUT = 110"

fun is_USBError :: "exn \<Rightarrow> bool" where
  "is_USBError (USBError n) = True"
| "is_USBError e = False"

fun is_OSError :: "exn \<Rightarrow> bool" where
  "is_OSError (OSError n) = True"
| "is_OSError (USBError n) = True"
| "is_OSError e = False"

fun is_NotImplemented_or_Attribute :: "exn \<Rightarrow> bool" where
  "is_NotImplemented_or_Attribute NotImplementedError = True"
| "is_NotImplemented_or_Attribute AttributeError = True"
| "is_NotImplemented_or_Attribute e = False"

text \<open>\<open>except Exception\<close>: every modelled exception is an instance of \<open>Exception\<close>.\<close>

fun is_Exception :: "exn \<Rightarrow> bool" where
  "is_Exception e = True"

fun errno :: "exn \<Rightarrow> nat option" where
  "errno (USBError n) = Some n"
| "errno (OSError n) = Some n"
| "errno e = None"

subsection \<open>USB descriptors\<close>

type_synonym bytes = "8 word list"
type_synonym fd = nat

text \<open>
  An endpoint descriptor; \<open>wMaxPacketSize = None\<close> is an endpoint object without that
  attribute (the \<open>hasattr\<close> test of \<open>_usb_reader_loop\<close>).
\<close>

record endpoint =
  bEndpointAddress :: "8 word"
  wMaxPacketSize :: "nat option"

record usb_interface =
  bInterfaceNumber :: nat
  bInterfaceClass :: nat
  endpoints :: "endpoint list"

text \<open>
  A configuration, as pyusb presents it: indexed by interface index, then by alternate
  setting. Iterating a configuration yields every alternate setting of interface 0, then
  of interface 1, and so on; \<open>cfg[(i, a)]\<close> raises \<open>IndexError\<close> when there is no such
  interface or alternate setting.
\<close>

type_synonym configuration = "usb_interface list list"

definition cfg_iter :: "configuration \<Rightarrow> usb_interface list" where
  "cfg_iter cfg = concat cfg"

definition cfg_getitem :: "configuration \<Rightarrow> nat \<times> nat \<Rightarrow> exn + usb_interface" where
  "cfg_getitem cfg idx =
     (case idx of (i, a) \<Rightarrow>
        if i < length cfg
        then (if a < length (cfg ! i) then Inr (cfg ! i ! a) else Inl IndexError)
        else Inl IndexError)"

record usb_device =
  get_active_configuration :: "exn + configuration"

definition ENDPOINT_OUT :: "8 word" where
  "ENDPOINT_OUT = 0x00"

definition ENDPOINT_IN :: "8 word" where
  "ENDPOINT_IN = 0x80"

text \<open>\<open>usb.util.endpoint_direction\<close>: the address masked with \<open>0x80\<close>.\<close>

definition endpoint_direction :: "8 word \<Rightarrow> 8 word" where
  "endpoint_direction address = address AND 0x80"

subsection \<open>The session object, events and outcomes\<close>

record bridge =
  dev :: usb_device
  out_ep :: "endpoint option"
  in_ep :: "endpoint option"
  iface :: "nat option"
  should_stop :: bool
  master_fd :: "fd option"
  slave_name :: "string option"
  orig_kernel_attached :: bool

text \<open>The messages the source prints, with the values it formats into them.\<close>

datatype log =
    LogDetached "nat option"
  | LogDetachFailed exn
  | LogSlaveDevice "string option"
  | LogStopping
  | LogStopped
  | LogUsbToPty nat
  | LogReaderError exn
  | LogNoOutEndpoint nat
  | LogPtyToUsb nat
  | LogWriteError exn
  | LogMainError exn

text \<open>
  One event per library call, with the arguments the source passes. Timeouts are in
  milliseconds (\<open>select\<close> is called with \<open>0.2\<close> seconds, recorded as 200).
\<close>

datatype event =
    IsKernelDriverActive "nat option"
  | DetachKernelDriver "nat option"
  | ClaimInterface "nat option"
  | ReleaseInterface "nat option"
  | AttachKernelDriver "nat option"
  | OpenPty
  | TtyName fd
  | Close fd
  | Select "fd option" nat
  | OsRead "fd option" nat
  | OsWrite "fd option" bytes
  | UsbRead "8 word" nat nat
  | UsbWrite "8 word" bytes nat
  | ThreadStart
  | Sleep
  | Flush
  | Print log

text \<open>How a call ends: it returns, or it raises.\<close>

datatype completion = Returned | Raised exn

text \<open>
  A method of the object: from the object's state to how the call ended, the state it
  left (Python mutates in place, so the state survives a raise) and the calls it made.
\<close>

type_synonym action = "bridge \<Rightarrow> completion \<times> bridge \<times> event list"

definition skip :: action where
  "skip b = (Returned, b, [])"

definition raise :: "exn \<Rightarrow> action" where
  "raise e b = (Raised e, b, [])"

definition emit :: "event \<Rightarrow> action" where
  "emit ev b = (Returned, b, [ev])"

text \<open>A library call that returns nothing: the event, then its answer.\<close>

definition call :: "event \<Rightarrow> exn option \<Rightarrow> action" where
  "call ev answer b = (case answer of None \<Rightarrow> (Returned, b, [ev]) | Some e \<Rightarrow> (Raised e, b, [ev]))"

definition modify :: "(bridge \<Rightarrow> bridge) \<Rightarrow> action" where
  "modify f b = (Returned, f b, [])"

text \<open>Two statements in sequence: the second runs only if the first returned.\<close>

definition seq :: "action \<Rightarrow> action \<Rightarrow> action" where
  "seq first second b =
     (case first b of
        (Raised e, b1, t1) \<Rightarrow> (Raised e, b1, t1)
      | (Returned, b1, t1) \<Rightarrow> (case second b1 of (c, b2, t2) \<Rightarrow> (c, b2, t1 @ t2)))"

text \<open>\<open>try: body  except <handles> as e: handler e\<close>.\<close>

definition try_except :: "action \<Rightarrow> (exn \<Rightarrow> bool) \<Rightarrow> (exn \<Rightarrow> action) \<Rightarrow> action" where
  "try_except body handles handler b =
     (case body b of
        (Raised e, b1, t1) \<Rightarrow>
          (if handles e then (case handler e b1 of (c, b2, t2) \<Rightarrow> (c, b2, t1 @ t2))
           else (Raised e, b1, t1))
      | (Returned, b1, t1) \<Rightarrow> (Returned, b1, t1))"

subsection \<open>The answers of the libraries\<close>

text \<open>
  What each library call of \<open>_claim\<close>, \<open>_release\<close>, \<open>_create_pty\<close> and \<open>stop\<close> answers.
  \<open>None\<close> is a call that returned; \<open>Inl\<close> and \<open>Some\<close> carry the exception raised.
\<close>

record env =
  is_kernel_driver_active_r :: "exn + bool"
  detach_kernel_driver_r :: "exn option"
  claim_interface_r :: "exn option"
  release_interface_r :: "exn option"
  attach_kernel_driver_r :: "exn option"
  openpty_r :: "exn + fd \<times> fd"
  ttyname_r :: "exn + string"
  close_r :: "fd \<Rightarrow> exn option"
  thread_start_r :: "exn option"

subsection \<open>\<open>__init__\<close>\<close>

definition init :: "usb_device \<Rightarrow> bridge" where
  "init d = \<lparr> dev = d, out_ep = None, in_ep = None, iface = None, should_stop = False,
              master_fd = None, slave_name = None, orig_kernel_attached = False \<rparr>"

subsection \<open>\<open>_find_endpoints\<close>\<close>

text \<open>The first loop: the first interface of class 7, \<open>None\<close> if the loop ends without \<open>break\<close>.\<close>

fun find_printer_interface :: "usb_interface list \<Rightarrow> usb_interface option" where
  "find_printer_interface [] = None"
| "find_printer_interface (interface # rest) =
     (if bInterfaceClass interface = 7 then Some interface else find_printer_interface rest)"

text \<open>The second loop, over the endpoints, with the two variables it assigns.\<close>

fun scan_endpoints ::
  "endpoint list \<Rightarrow> endpoint option \<times> endpoint option \<Rightarrow> endpoint option \<times> endpoint option" where
  "scan_endpoints [] (out_e, in_e) = (out_e, in_e)"
| "scan_endpoints (ep # rest) (out_e, in_e) =
     (let addr = bEndpointAddress ep in
      if endpoint_direction addr = ENDPOINT_OUT then scan_endpoints rest (Some ep, in_e)
      else if endpoint_direction addr = ENDPOINT_IN then scan_endpoints rest (out_e, Some ep)
      else scan_endpoints rest (out_e, in_e))"

definition find_endpoints :: action where
  "find_endpoints b =
     (case get_active_configuration (dev b) of
        Inl e \<Rightarrow> (Raised e, b, [])
      | Inr cfg \<Rightarrow>
          (case (case find_printer_interface (cfg_iter cfg) of
                   Some interface \<Rightarrow> Inr interface
                 | None \<Rightarrow> cfg_getitem cfg (0, 0)) of
             Inl e \<Rightarrow> (Raised e, b, [])
           | Inr intf \<Rightarrow>
               (let b1 = b\<lparr>iface := Some (bInterfaceNumber intf)\<rparr>;
                    (out_e, in_e) = scan_endpoints (endpoints intf) (None, None)
                in (Returned, b1\<lparr>out_ep := out_e, in_ep := in_e\<rparr>, []))))"

subsection \<open>\<open>_claim\<close> and \<open>_release\<close>\<close>

definition claim :: "env \<Rightarrow> action" where
  "claim env =
     seq
       (try_except
          (\<lambda>b. case is_kernel_driver_active_r env of
                  Inl e \<Rightarrow> (Raised e, b, [IsKernelDriverActive (iface b)])
                | Inr active \<Rightarrow>
                    seq (emit (IsKernelDriverActive (iface b)))
                      (if active then
                         try_except
                           (seq (\<lambda>b. call (DetachKernelDriver (iface b)) (detach_kernel_driver_r env) b)
                             (seq (modify (\<lambda>b. b\<lparr>orig_kernel_attached := True\<rparr>))
                                  (\<lambda>b. emit (Print (LogDetached (iface b))) b)))
                           is_USBError
                           (\<lambda>e. emit (Print (LogDetachFailed e)))
                       else skip) b)
          is_NotImplemented_or_Attribute
          (\<lambda>e. skip))
       (\<lambda>b. call (ClaimInterface (iface b)) (claim_interface_r env) b)"

definition release :: "env \<Rightarrow> action" where
  "release env =
     seq
       (try_except
          (\<lambda>b. call (ReleaseInterface (iface b)) (release_interface_r env) b)
          is_Exception (\<lambda>e. skip))
       (\<lambda>b. if orig_kernel_attached b
            then try_except
                   (call (AttachKernelDriver (iface b)) (attach_kernel_driver_r env))
                   is_Exception (\<lambda>e. skip) b
            else skip b)"

subsection \<open>\<open>_create_pty\<close>\<close>

definition create_pty :: "env \<Rightarrow> action" where
  "create_pty env b =
     (case openpty_r env of
        Inl e \<Rightarrow> (Raised e, b, [OpenPty])
      | Inr (master, slave) \<Rightarrow>
          seq (emit OpenPty)
            (seq (modify (\<lambda>b. b\<lparr>master_fd := Some master\<rparr>))
              (seq (\<lambda>b. case ttyname_r env of
                          Inl e \<Rightarrow> (Raised e, b, [TtyName slave])
                        | Inr name \<Rightarrow> (Returned, b\<lparr>slave_name := Some name\<rparr>, [TtyName slave]))
                   (call (Close slave) (close_r env slave)))) b)"

subsection \<open>\<open>stop\<close>\<close>

text \<open>
  \<open>if self._master_fd:\<close> is Python's truth test: \<open>None\<close> and the descriptor 0 are both
  false, and the close is skipped for both.
\<close>

definition stop :: "env \<Rightarrow> action" where
  "stop env b =
     (if should_stop b then (Returned, b, [])
      else
        seq (modify (\<lambda>b. b\<lparr>should_stop := True\<rparr>))
          (seq (emit (Print LogStopping))
            (seq (try_except
                    (\<lambda>b. case master_fd b of
                            None \<Rightarrow> skip b
                          | Some fd \<Rightarrow> if fd \<noteq> 0 then call (Close fd) (close_r env fd) b else skip b)
                    is_Exception (\<lambda>e. skip))
              (seq (try_except (release env) is_Exception (\<lambda>e. skip))
                   (emit (Print LogStopped))))) b)"

subsection \<open>The forwarding loops\<close>

definition USB_READ_TIMEOUT :: nat where
  "USB_READ_TIMEOUT = 200"

definition USB_WRITE_TIMEOUT :: nat where
  "USB_WRITE_TIMEOUT = 5000"

text \<open>How one pass through a loop body ends.\<close>

datatype loop_ctl = Continue | Break | Raise exn

text \<open>
  A loop that has not ended when the answers of the libraries run out is still
  \<open>Running\<close>: the source's loops have no bound of their own.
\<close>

datatype progress = Finished completion | Running

text \<open>
  What one iteration of \<open>_usb_reader_loop\<close> meets: whether another thread's \<open>stop\<close> has
  set the flag before the loop tests it, the answer of \<open>dev.read\<close> (the bytes the device
  has, of which the call returns at most the requested size) and of \<open>os.write\<close>.
\<close>

record usb_obs =
  usb_stop_seen :: bool
  usb_read_r :: "exn + bytes"
  os_write_r :: "exn option"

definition reader_bufsize :: "bridge \<Rightarrow> nat" where
  "reader_bufsize b =
     (case in_ep b of
        None \<Rightarrow> 512
      | Some ep \<Rightarrow> (case wMaxPacketSize ep of Some n \<Rightarrow> n | None \<Rightarrow> 512))"

text \<open>
  The body of the \<open>while\<close> of \<open>_usb_reader_loop\<close>. With no inbound endpoint,
  \<open>self.in_ep.bEndpointAddress\<close> raises \<open>AttributeError\<close> inside the \<open>try\<close>, which the
  \<open>except Exception\<close> clause logs. The inner \<open>except OSError\<close> guards \<open>os.write\<close>; what
  it does not catch reaches the outer clauses, \<open>except usb.core.USBError: pass\<close> first.
\<close>

definition usb_reader_body :: "bridge \<Rightarrow> nat \<Rightarrow> usb_obs \<Rightarrow> loop_ctl \<times> event list" where
  "usb_reader_body b bufsize obs =
     (case in_ep b of
        None \<Rightarrow> (Break, [Print (LogReaderError AttributeError)])
      | Some ep \<Rightarrow>
          (let rd = UsbRead (bEndpointAddress ep) bufsize USB_READ_TIMEOUT in
           case usb_read_r obs of
             Inl e \<Rightarrow>
               if is_USBError e then (Continue, [rd, Sleep])
               else (Break, [rd, Print (LogReaderError e)])
           | Inr avail \<Rightarrow>
               (let data = take bufsize avail in
                if data = [] then (Continue, [rd, Sleep])
                else
                  (let wr = OsWrite (master_fd b) data in
                   case os_write_r obs of
                     None \<Rightarrow> (Continue, [rd, wr, Print (LogUsbToPty (length data)), Sleep])
                   | Some e \<Rightarrow>
                       if is_OSError e then
                         (if errno e = Some EBADF then (Break, [rd, wr])
                          else (Continue, [rd, wr, Sleep]))
                       else if is_USBError e then (Continue, [rd, wr, Sleep])
                       else (Break, [rd, wr, Print (LogReaderError e)])))))"

fun usb_reader_iterate ::
  "bridge \<Rightarrow> nat \<Rightarrow> usb_obs list \<Rightarrow> progress \<times> bridge \<times> event list" where
  "usb_reader_iterate b bufsize [] =
     (if should_stop b then (Finished Returned, b, []) else (Running, b, []))"
| "usb_reader_iterate b bufsize (obs # rest) =
     (let b1 = (if usb_stop_seen obs then b\<lparr>should_stop := True\<rparr> else b) in
      if should_stop b1 then (Finished Returned, b1, [])
      else
        (case usb_reader_body b1 bufsize obs of
           (Continue, t) \<Rightarrow>
             (case usb_reader_iterate b1 bufsize rest of (p, b2, t2) \<Rightarrow> (p, b2, t @ t2))
         | (Break, t) \<Rightarrow> (Finished Returned, b1, t)
         | (Raise e, t) \<Rightarrow> (Finished (Raised e), b1, t)))"

definition usb_reader_loop :: "bridge \<Rightarrow> usb_obs list \<Rightarrow> progress \<times> bridge \<times> event list" where
  "usb_reader_loop b script = usb_reader_iterate b (reader_bufsize b) script"

text \<open>
  What one iteration of \<open>_pty_writer_loop\<close> meets: the stop flag as above, whether
  \<open>select\<close> reports the master descriptor readable, the bytes the terminal holds (of
  which \<open>os.read\<close> returns at most 4096) and the answer of \<open>dev.write\<close>.
\<close>

record pty_obs =
  pty_stop_seen :: bool
  select_r :: "exn + bool"
  os_read_r :: "exn + bytes"
  usb_write_r :: "exn option"

definition pty_writer_body :: "bridge \<Rightarrow> fd option \<Rightarrow> pty_obs \<Rightarrow> loop_ctl \<times> event list" where
  "pty_writer_body b master obs =
     (let sel = Select master 200 in
      case select_r obs of
        Inl e \<Rightarrow> (Raise e, [sel])
      | Inr ready \<Rightarrow>
          if ready then
            (let rd = OsRead master 4096 in
             case os_read_r obs of
               Inl e \<Rightarrow> if is_OSError e then (Break, [sel, rd]) else (Raise e, [sel, rd])
             | Inr avail \<Rightarrow>
                 (let data = take 4096 avail in
                  if data = [] then (Break, [sel, rd])
                  else
                    (case out_ep b of
                       None \<Rightarrow> (Continue, [sel, rd, Print (LogNoOutEndpoint (length data))])
                     | Some ep \<Rightarrow>
                         (let wr = UsbWrite (bEndpointAddress ep) data USB_WRITE_TIMEOUT in
                          case usb_write_r obs of
                            None \<Rightarrow>
                              (Continue, [sel, rd, wr, Print (LogPtyToUsb (length data)), Sleep])
                          | Some e \<Rightarrow>
                              if is_USBError e
                              then (Continue, [sel, rd, wr, Print (LogWriteError e), Sleep])
                              else (Raise e, [sel, rd, wr])))))
          else (Continue, [sel, Sleep]))"

fun pty_writer_iterate ::
  "bridge \<Rightarrow> fd option \<Rightarrow> pty_obs list \<Rightarrow> progress \<times> bridge \<times> event list" where
  "pty_writer_iterate b master [] =
     (if should_stop b then (Finished Returned, b, []) else (Running, b, []))"
| "pty_writer_iterate b master (obs # rest) =
     (let b1 = (if pty_stop_seen obs then b\<lparr>should_stop := True\<rparr> else b) in
      if should_stop b1 then (Finished Returned, b1, [])
      else
        (case pty_writer_body b1 master obs of
           (Continue, t) \<Rightarrow>
             (case pty_writer_iterate b1 master rest of (p, b2, t2) \<Rightarrow> (p, b2, t @ t2))
         | (Break, t) \<Rightarrow> (Finished Returned, b1, t)
         | (Raise e, t) \<Rightarrow> (Finished (Raised e), b1, t)))"

definition pty_writer_loop :: "bridge \<Rightarrow> pty_obs list \<Rightarrow> progress \<times> bridge \<times> event list" where
  "pty_writer_loop b script = pty_writer_iterate b (master_fd b) script"

subsection \<open>\<open>start\<close>\<close>

text \<open>The message of the \<open>RuntimeError\<close> of \<open>start\<close>, its accented letter as UTF-8.\<close>

definition NO_ENDPOINTS :: string where
  "NO_ENDPOINTS = ''No encontr'' @ [CHR 0xC3, CHR 0xA9]
                  @ '' endpoints IN/OUT en la interfaz USB seleccionada''"

text \<open>The statements of \<open>start\<close> before the \<open>try\<close>.\<close>

definition start_setup :: "env \<Rightarrow> action" where
  "start_setup env =
     seq find_endpoints
       (seq (\<lambda>b. if out_ep b = None \<and> in_ep b = None
                 then raise (RuntimeError NO_ENDPOINTS) b else skip b)
         (seq (claim env)
           (seq (create_pty env)
             (seq (\<lambda>b. emit (Print (LogSlaveDevice (slave_name b))) b)
               (seq (emit Flush)
                    (\<lambda>b. if in_ep b \<noteq> None then call ThreadStart (thread_start_r env) b
                         else skip b))))))"

text \<open>
  \<open>start\<close>: the setup, then \<open>try: self._pty_writer_loop()  finally: self.stop()\<close>. The
  \<open>finally\<close> clause runs when the loop has ended, by return or by raise.
\<close>

definition start :: "env \<Rightarrow> pty_obs list \<Rightarrow> bridge \<Rightarrow> progress \<times> bridge \<times> event list" where
  "start env script b =
     (case start_setup env b of
        (Raised e, b1, t1) \<Rightarrow> (Finished (Raised e), b1, t1)
      | (Returned, b1, t1) \<Rightarrow>
          (case pty_writer_loop b1 script of
             (Running, b2, t2) \<Rightarrow> (Running, b2, t1 @ t2)
           | (Finished c, b2, t2) \<Rightarrow>
               (case stop env b2 of
                  (Raised e, b3, t3) \<Rightarrow> (Finished (Raised e), b3, t1 @ t2 @ t3)
                | (Returned, b3, t3) \<Rightarrow> (Finished c, b3, t1 @ t2 @ t3))))"

subsection \<open>The launcher's call of \<open>start\<close>\<close>

text \<open>
  The last statement of \<open>main\<close>: \<open>try: bridge.start()  except Exception as e:\<close> print the
  error, \<open>bridge.stop()\<close>, \<open>sys.exit(3)\<close>. Falling off the end of \<open>main\<close> is exit status 0.
\<close>

datatype exit = Exit nat | Uncaught exn | NoExit

definition main_start :: "env \<Rightarrow> pty_obs list \<Rightarrow> bridge \<Rightarrow> exit \<times> bridge \<times> event list" where
  "main_start env script b =
     (case start env script b of
        (Running, b1, t1) \<Rightarrow> (NoExit, b1, t1)
      | (Finished Returned, b1, t1) \<Rightarrow> (Exit 0, b1, t1)
      | (Finished (Raised e), b1, t1) \<Rightarrow>
          (case stop env b1 of
             (Raised e2, b2, t2) \<Rightarrow> (Uncaught e2, b2, t1 @ [Print (LogMainError e)] @ t2)
           | (Returned, b2, t2) \<Rightarrow> (Exit 3, b2, t1 @ [Print (LogMainError e)] @ t2)))"

subsection \<open>Reading an outcome\<close>

definition state_of :: "'a \<times> bridge \<times> event list \<Rightarrow> bridge" where
  "state_of r = fst (snd r)"

definition trace_of :: "'a \<times> bridge \<times> event list \<Rightarrow> event list" where
  "trace_of r = snd (snd r)"

subsection \<open>Endpoint resolution as the specification words it\<close>

text \<open>
  The first interface of class 7 in the order of iteration, else interface index 0,
  alternate setting 0; the direction of an endpoint is bit 7 of its address; the last
  endpoint of each direction is kept.
\<close>

definition spec_select_interface :: "configuration \<Rightarrow> exn + usb_interface" where
  "spec_select_interface cfg =
     (case List.find (\<lambda>i. bInterfaceClass i = 7) (concat cfg) of
        Some i \<Rightarrow> Inr i
      | None \<Rightarrow>
          (case cfg of
             [] \<Rightarrow> Inl IndexError
           | alts # others \<Rightarrow> (case alts of [] \<Rightarrow> Inl IndexError | i # later \<Rightarrow> Inr i)))"

definition spec_last_endpoint :: "bool \<Rightarrow> endpoint list \<Rightarrow> endpoint option" where
  "spec_last_endpoint inbound eps =
     (case filter (\<lambda>ep. bit (bEndpointAddress ep) 7 = inbound) eps of
        [] \<Rightarrow> None
      | x # xs \<Rightarrow> Some (last (x # xs)))"

definition spec_resolve :: "configuration \<Rightarrow> exn + nat \<times> endpoint option \<times> endpoint option" where
  "spec_resolve cfg =
     (case spec_select_interface cfg of
        Inl e \<Rightarrow> Inl e
      | Inr intf \<Rightarrow>
          Inr (bInterfaceNumber intf,
               spec_last_endpoint True (endpoints intf),
               spec_last_endpoint False (endpoints intf)))"

subsection \<open>A sample device and sample answers\<close>

definition ep_out :: endpoint where
  "ep_out = \<lparr> bEndpointAddress = 0x01, wMaxPacketSize = Some 64 \<rparr>"

definition ep_in :: endpoint where
  "ep_in = \<lparr> bEndpointAddress = 0x81, wMaxPacketSize = Some 64 \<rparr>"

definition printer_interface :: usb_interface where
  "printer_interface = \<lparr> bInterfaceNumber = 0, bInterfaceClass = 7, endpoints = [ep_out, ep_in] \<rparr>"

definition printer_device :: usb_device where
  "printer_device = \<lparr> get_active_configuration = Inr [[printer_interface]] \<rparr>"

definition quiet_env :: env where
  "quiet_env = \<lparr> is_kernel_driver_active_r = Inr True, detach_kernel_driver_r = None,
       claim_interface_r = None, release_interface_r = None, attach_kernel_driver_r = None,
       openpty_r = Inr (3, 4), ttyname_r = Inr ''/dev/pts/5'', close_r = (\<lambda>fd. None),
       thread_start_r = None \<rparr>"

definition ep_in2 :: endpoint where
  "ep_in2 = \<lparr> bEndpointAddress = 0x82, wMaxPacketSize = Some 8 \<rparr>"

definition vendor_interface :: usb_interface where
  "vendor_interface = \<lparr> bInterfaceNumber = 0, bInterfaceClass = 255, endpoints = [] \<rparr>"

definition printer_interface2 :: usb_interface where
  "printer_interface2 =
     \<lparr> bInterfaceNumber = 1, bInterfaceClass = 7, endpoints = [ep_in, ep_out, ep_in2] \<rparr>"

text \<open>
  A device whose first interface is vendor-specific and whose second is a printer with
  two inbound endpoints.
\<close>

definition composite_device :: usb_device where
  "composite_device =
     \<lparr> get_active_configuration = Inr [[vendor_interface], [printer_interface2]] \<rparr>"

text \<open>A session on which \<open>stop\<close> has run.\<close>

definition stopped_bridge :: bridge where
  "stopped_bridge = state_of (stop quiet_env (init printer_device))"

text \<open>A printer with an inbound endpoint only.\<close>

definition in_only_interface :: usb_interface where
  "in_only_interface = \<lparr> bInterfaceNumber = 0, bInterfaceClass = 7, endpoints = [ep_in] \<rparr>"

definition in_only_device :: usb_device where
  "in_only_device = \<lparr> get_active_configuration = Inr [[in_only_interface]] \<rparr>"

text \<open>The sessions on those devices, once \<open>_find_endpoints\<close> has run.\<close>

definition printer_found :: bridge where
  "printer_found = (init printer_device)\<lparr>iface := Some 0, out_ep := Some ep_out, in_ep := Some ep_in\<rparr>"

definition in_only_found :: bridge where
  "in_only_found = (init in_only_device)\<lparr>iface := Some 0, out_ep := None, in_ep := Some ep_in\<rparr>"

text \<open>Answers where the USB-level claim fails, and where \<open>pty.openpty\<close> fails.\<close>

definition busy_env :: env where
  "busy_env = quiet_env\<lparr>claim_interface_r := Some (USBError 16)\<rparr>"

definition pty_fail_env :: env where
  "pty_fail_env = quiet_env\<lparr>openpty_r := Inl (OSError 24)\<rparr>"

text \<open>The inbound-only session after a successful setup, and one byte typed on the terminal.\<close>

definition in_only_running :: bridge where
  "in_only_running =
     in_only_found\<lparr>orig_kernel_attached := True, master_fd := Some 3,
                    slave_name := Some ''/dev/pts/5''\<rparr>"

definition typed_A :: pty_obs where
  "typed_A = \<lparr> pty_stop_seen = False, select_r = Inr True, os_read_r = Inr [0x41],
               usb_write_r = None \<rparr>"

text \<open>
  The sample printer after a successful setup; a read on a device that has gone
  (\<open>ENODEV\<close>, not a timeout); two bytes typed while the device refuses the write.
\<close>

definition printer_running :: bridge where
  "printer_running =
     printer_found\<lparr>orig_kernel_attached := True, master_fd := Some 3,
                    slave_name := Some ''/dev/pts/5''\<rparr>"

definition ENODEV :: nat where
  "ENODEV = 19"

definition device_gone :: usb_obs where
  "device_gone = \<lparr> usb_stop_seen = False, usb_read_r = Inl (USBError ENODEV),
                   os_write_r = None \<rparr>"

definition write_fails :: pty_obs where
  "write_fails = \<lparr> pty_stop_seen = False, select_r = Inr True, os_read_r = Inr [0x41, 0x42],
                   usb_write_r = Some (USBError ENODEV) \<rparr>"

text \<open>Answers where detaching the kernel driver is not supported.\<close>

definition detach_unsupported_env :: env where
  "detach_unsupported_env = quiet_env\<lparr>detach_kernel_driver_r := Some NotImplementedError\<rparr>"

text \<open>Two bytes typed with the device accepting the write; the terminal closed by its peer.\<close>

definition typed_AB :: pty_obs where
  "typed_AB = \<lparr> pty_stop_seen = False, select_r = Inr True, os_read_r = Inr [0x41, 0x42],
                usb_write_r = None \<rparr>"

definition terminal_closed :: pty_obs where
  "terminal_closed = \<lparr> pty_stop_seen = False, select_r = Inr True, os_read_r = Inr [],
                       usb_write_r = None \<rparr>"

section \<open>Properties\<close>

subsection \<open>Auxiliary facts\<close>

lemmas act_defs = skip_def raise_def emit_def call_def modify_def seq_def try_except_def

lemma direction_out: "(endpoint_direction a = ENDPOINT_OUT) = (\<not> bit a 7)"
  using and_exp_eq_0_iff_not_bit [of a 7]
  by (simp add: endpoint_direction_def ENDPOINT_OUT_def)

lemma bit_128: "bit (128 :: int) n = (n = 7)"
  using bit_exp_iff [where ?'a = int, of 7 n] by auto

lemma and_128: "(a :: 8 word) AND 0x80 = (if bit a 7 then 0x80 else 0)"
  by (rule bit_eqI) (auto simp add: bit_and_iff bit_128)

lemma direction_in: "(endpoint_direction a = ENDPOINT_IN) = bit a 7"
  by (simp add: endpoint_direction_def ENDPOINT_IN_def and_128)

lemma find_printer_interface_find:
  "find_printer_interface xs = List.find (\<lambda>i. bInterfaceClass i = 7) xs"
  by (induction xs) auto

lemma scan_endpoints_last:
  "scan_endpoints eps (o1, i1) =
     (case spec_last_endpoint False eps of None \<Rightarrow> o1 | Some e \<Rightarrow> Some e,
      case spec_last_endpoint True eps of None \<Rightarrow> i1 | Some e \<Rightarrow> Some e)"
proof (induction eps arbitrary: o1 i1)
  case Nil
  then show ?case by (simp add: spec_last_endpoint_def)
next
  case (Cons ep eps)
  show ?case
    by (cases "bit (bEndpointAddress ep) 7")
       (simp_all add: Cons direction_out direction_in spec_last_endpoint_def Let_def split: list.splits)
qed

lemma cfg_getitem_first:
  "cfg_getitem cfg (0, 0) =
     (case cfg of [] \<Rightarrow> Inl IndexError
      | alts # others \<Rightarrow> (case alts of [] \<Rightarrow> Inl IndexError | i # later \<Rightarrow> Inr i))"
  by (simp add: cfg_getitem_def split: list.splits)

lemma find_endpoints_resolve:
  "find_endpoints b =
     (case get_active_configuration (dev b) of
        Inl e \<Rightarrow> (Raised e, b, [])
      | Inr cfg \<Rightarrow>
          (case spec_resolve cfg of
             Inl e \<Rightarrow> (Raised e, b, [])
           | Inr (n, i, out) \<Rightarrow> (Returned, b\<lparr>iface := Some n, out_ep := out, in_ep := i\<rparr>, [])))"
  by (simp add: find_endpoints_def spec_resolve_def spec_select_interface_def cfg_iter_def
        find_printer_interface_find cfg_getitem_first scan_endpoints_last
      split: sum.splits option.splits list.splits)

lemma release_eq:
  "release env b =
     (Returned, b,
      ReleaseInterface (iface b) #
        (if orig_kernel_attached b then [AttachKernelDriver (iface b)] else []))"
  by (simp add: release_def act_defs split: option.splits)

lemma stop_eq:
  "stop env b =
     (if should_stop b then (Returned, b, [])
      else (Returned, b\<lparr>should_stop := True\<rparr>,
            [Print LogStopping] @
            (case master_fd b of None \<Rightarrow> [] | Some fd \<Rightarrow> if fd \<noteq> 0 then [Close fd] else []) @
            [ReleaseInterface (iface b)] @
            (if orig_kernel_attached b then [AttachKernelDriver (iface b)] else []) @
            [Print LogStopped]))"
  by (simp add: stop_def release_eq act_defs split: option.splits)

lemma state_of_triple: "state_of (c, b, t) = b"
  by (simp add: state_of_def)

lemma trace_of_triple: "trace_of (c, b, t) = t"
  by (simp add: trace_of_def)

lemmas out_simps = state_of_triple trace_of_triple

lemma claim_trace_nonempty: "trace_of (claim env b) \<noteq> []"
  by (simp add: claim_def trace_of_def act_defs
      split: sum.splits option.splits prod.splits completion.splits bool.splits)

lemma claim_flag:
  "orig_kernel_attached (state_of (claim env b)) =
     (orig_kernel_attached b \<or>
      (is_kernel_driver_active_r env = Inr True \<and> detach_kernel_driver_r env = None))"
  by (auto simp add: claim_def state_of_def act_defs split: option.splits sum.splits bool.splits)

lemmas seq_defs = seq_def skip_def raise_def emit_def call_def

lemma start_setup_find_raised:
  assumes "find_endpoints b = (Raised e, b1, t1)"
  shows "start_setup env b = (Raised e, b1, t1)"
  using assms by (simp add: start_setup_def seq_defs)

lemma start_setup_no_endpoints:
  assumes "find_endpoints b = (Returned, b1, t1)" and "out_ep b1 = None \<and> in_ep b1 = None"
  shows "start_setup env b = (Raised (RuntimeError NO_ENDPOINTS), b1, t1)"
  using assms by (simp add: start_setup_def seq_defs)

lemma start_setup_claim_raised:
  assumes "find_endpoints b = (Returned, b1, t1)" and "\<not> (out_ep b1 = None \<and> in_ep b1 = None)"
    and "claim env b1 = (Raised e, b2, t2)"
  shows "start_setup env b = (Raised e, b2, t1 @ t2)"
  using assms by (auto simp add: start_setup_def seq_defs)

lemma start_setup_pty_raised:
  assumes "find_endpoints b = (Returned, b1, t1)" and "\<not> (out_ep b1 = None \<and> in_ep b1 = None)"
    and "claim env b1 = (Returned, b2, t2)" and "create_pty env b2 = (Raised e, b3, t3)"
  shows "start_setup env b = (Raised e, b3, t1 @ t2 @ t3)"
  using assms by (auto simp add: start_setup_def seq_defs)

lemma start_setup_provisioned:
  assumes "find_endpoints b = (Returned, b1, t1)" and "\<not> (out_ep b1 = None \<and> in_ep b1 = None)"
    and "claim env b1 = (Returned, b2, t2)" and "create_pty env b2 = (Returned, b3, t3)"
  shows "start_setup env b =
           (if in_ep b3 \<noteq> None
            then (case thread_start_r env of None \<Rightarrow> Returned | Some e \<Rightarrow> Raised e)
            else Returned,
            b3,
            t1 @ t2 @ t3 @ [Print (LogSlaveDevice (slave_name b3)), Flush] @
            (if in_ep b3 \<noteq> None then [ThreadStart] else []))"
  using assms by (auto simp add: start_setup_def seq_defs split: option.splits)

lemma find_endpoints_frame:
  assumes "find_endpoints b = (c, b1, t)"
  shows "t = []" and "should_stop b1 = should_stop b" and "master_fd b1 = master_fd b"
    and "orig_kernel_attached b1 = orig_kernel_attached b"
  using assms
  by (auto simp add: find_endpoints_resolve split: sum.splits prod.splits)

lemma claim_frame:
  assumes "claim env b = (c, b1, t)"
  shows "should_stop b1 = should_stop b" and "in_ep b1 = in_ep b" and "out_ep b1 = out_ep b"
    and "iface b1 = iface b" and "master_fd b1 = master_fd b"
    and "ThreadStart \<notin> set t" and "ReleaseInterface i \<notin> set t" and "t \<noteq> []"
  using assms
  by (auto simp add: claim_def act_defs split: sum.splits option.splits bool.splits if_splits)

lemma create_pty_frame:
  assumes "create_pty env b = (c, b1, t)"
  shows "should_stop b1 = should_stop b" and "in_ep b1 = in_ep b" and "out_ep b1 = out_ep b"
    and "iface b1 = iface b" and "orig_kernel_attached b1 = orig_kernel_attached b"
    and "ThreadStart \<notin> set t" and "ReleaseInterface i \<notin> set t"
  using assms
  by (auto simp add: create_pty_def act_defs split: sum.splits option.splits prod.splits if_splits)


lemma start_setup_cases:
  obtains
    (find_raised) e b1 t1 where
      "find_endpoints b = (Raised e, b1, t1)" and "start_setup env b = (Raised e, b1, t1)"
  | (no_endpoints) b1 t1 where
      "find_endpoints b = (Returned, b1, t1)" and "out_ep b1 = None \<and> in_ep b1 = None"
      and "start_setup env b = (Raised (RuntimeError NO_ENDPOINTS), b1, t1)"
  | (claim_raised) e b1 t1 b2 t2 where
      "find_endpoints b = (Returned, b1, t1)" and "\<not> (out_ep b1 = None \<and> in_ep b1 = None)"
      and "claim env b1 = (Raised e, b2, t2)" and "start_setup env b = (Raised e, b2, t1 @ t2)"
  | (pty_raised) e b1 t1 b2 t2 b3 t3 where
      "find_endpoints b = (Returned, b1, t1)" and "\<not> (out_ep b1 = None \<and> in_ep b1 = None)"
      and "claim env b1 = (Returned, b2, t2)" and "create_pty env b2 = (Raised e, b3, t3)"
      and "start_setup env b = (Raised e, b3, t1 @ t2 @ t3)"
  | (provisioned) b1 t1 b2 t2 b3 t3 where
      "find_endpoints b = (Returned, b1, t1)" and "\<not> (out_ep b1 = None \<and> in_ep b1 = None)"
      and "claim env b1 = (Returned, b2, t2)" and "create_pty env b2 = (Returned, b3, t3)"
      and "start_setup env b =
             (if in_ep b3 \<noteq> None
              then (case thread_start_r env of None \<Rightarrow> Returned | Some e \<Rightarrow> Raised e)
              else Returned,
              b3,
              t1 @ t2 @ t3 @ [Print (LogSlaveDevice (slave_name b3)), Flush] @
              (if in_ep b3 \<noteq> None then [ThreadStart] else []))"
proof -
  obtain c1 b1 t1 where f: "find_endpoints b = (c1, b1, t1)"
    by (cases "find_endpoints b") auto
  show thesis
  proof (cases c1)
    case (Raised e)
    with f show thesis using find_raised start_setup_find_raised by blast
  next
    case Returned
    note f1 = f [unfolded Returned]
    show thesis
    proof (cases "out_ep b1 = None \<and> in_ep b1 = None")
      case True
      with f1 show thesis using no_endpoints start_setup_no_endpoints by blast
    next
      case False
      obtain c2 b2 t2 where c: "claim env b1 = (c2, b2, t2)"
        by (cases "claim env b1") auto
      show thesis
      proof (cases c2)
        case (Raised e)
        with f1 False c show thesis
          using claim_raised start_setup_claim_raised by blast
      next
        case Returned
        note c1 = c [unfolded Returned]
        obtain c3 b3 t3 where p: "create_pty env b2 = (c3, b3, t3)"
          by (cases "create_pty env b2") auto
        show thesis
        proof (cases c3)
          case (Raised e)
          with f1 False c1 p show thesis
            using pty_raised start_setup_pty_raised by blast
        next
          case Returned
          with f1 False c1 p show thesis
            using provisioned start_setup_provisioned by blast
        qed
      qed
    qed
  qed
qed

lemma start_setup_flag: "should_stop (state_of (start_setup env b)) = should_stop b"
proof (cases rule: start_setup_cases [of b env])
  case (find_raised e b1 t1)
  then show ?thesis by (simp add: out_simps find_endpoints_frame)
next
  case (no_endpoints b1 t1)
  then show ?thesis by (simp add: out_simps find_endpoints_frame)
next
  case (claim_raised e b1 t1 b2 t2)
  then show ?thesis by (simp add: out_simps find_endpoints_frame claim_frame)
next
  case (pty_raised e b1 t1 b2 t2 b3 t3)
  then show ?thesis by (simp add: out_simps find_endpoints_frame claim_frame create_pty_frame)
next
  case (provisioned b1 t1 b2 t2 b3 t3)
  then show ?thesis by (simp add: out_simps find_endpoints_frame claim_frame create_pty_frame)
qed

lemma pty_writer_iterate_stopped:
  "should_stop b \<Longrightarrow> pty_writer_iterate b master script = (Finished Returned, b, [])"
  by (cases script) simp_all

lemma usb_reader_iterate_stopped:
  "should_stop b \<Longrightarrow> usb_reader_iterate b bufsize script = (Finished Returned, b, [])"
  by (cases script) simp_all

lemma start_stopped:
  assumes "should_stop b"
  shows "start env script b =
           (Finished (fst (start_setup env b)), state_of (start_setup env b),
            trace_of (start_setup env b))"
proof -
  obtain c b1 t1 where s: "start_setup env b = (c, b1, t1)"
    by (cases "start_setup env b") auto
  have "should_stop b1"
    using start_setup_flag [of env b] assms s by (simp add: out_simps)
  then show ?thesis
    using s by (cases c) (simp_all add: start_def out_simps pty_writer_loop_def
        pty_writer_iterate_stopped stop_eq)
qed

subsection \<open>Release and stop\<close>

text \<open>
  C6. \<open>_release\<close> never raises: whatever the session state, and whatever
  \<open>release_interface\<close> and \<open>attach_kernel_driver\<close> answer (so also when either
  raises), it returns, leaves the state as it was, always calls the USB-level release,
  and calls the kernel-driver reattachment exactly when \<open>_orig_kernel_attached\<close> is
  set. \<open>_claim\<close> sets that flag exactly when the driver was active and its detachment
  succeeded.
\<close>

theorem release_never_raises:
  "fst (release env b) = Returned \<and>
   state_of (release env b) = b \<and>
   trace_of (release env b) =
     ReleaseInterface (iface b) #
       (if orig_kernel_attached b then [AttachKernelDriver (iface b)] else []) \<and>
   orig_kernel_attached (state_of (claim env0 b0)) =
     (orig_kernel_attached b0 \<or>
      (is_kernel_driver_active_r env0 = Inr True \<and> detach_kernel_driver_r env0 = None))"
  by (simp add: release_eq claim_flag out_simps)

text \<open>
  C3. \<open>stop\<close> is idempotent: after one call of \<open>stop\<close>, a second call, whatever the
  libraries would answer, returns without raising, leaves the state unchanged and makes
  no library call at all: the master descriptor is not closed again and the interface
  is not released again.
\<close>

theorem stop_idempotent:
  "stop env2 (state_of (stop env1 b)) = (Returned, state_of (stop env1 b), [])"
  by (simp add: stop_eq out_simps)

text \<open>
  C10. \<open>stop\<close> never raises, in any session state and whatever \<open>os.close\<close> and the
  release path answer. With the master descriptor still \<open>None\<close> it closes no
  descriptor. On a session not yet stopped, the release path runs after the close
  whether or not the close raised.
\<close>

theorem stop_never_raises:
  "fst (stop env b) = Returned \<and>
   (\<forall>fd. Close fd \<notin> set (trace_of (stop env (b\<lparr>master_fd := None\<rparr>)))) \<and>
   trace_of (stop env b) =
     (if should_stop b then []
      else [Print LogStopping] @
           (case master_fd b of None \<Rightarrow> [] | Some fd \<Rightarrow> if fd \<noteq> 0 then [Close fd] else []) @
           trace_of (release env b) @ [Print LogStopped])"
  by (simp add: stop_eq release_eq out_simps)

lemma spec_resolve_error: "spec_resolve cfg = Inl e \<Longrightarrow> e = IndexError"
  by (auto simp add: spec_resolve_def spec_select_interface_def
      split: option.splits list.splits sum.splits)

lemma start_trace_prefix:
  "\<exists>rest. trace_of (start env script b) = trace_of (start_setup env b) @ rest"
  by (auto simp add: start_def out_simps split: prod.splits completion.splits progress.splits)

lemma start_setup_trace_nonempty:
  assumes "find_endpoints b = (Returned, b1, t1)" and "\<not> (out_ep b1 = None \<and> in_ep b1 = None)"
  shows "trace_of (start_setup env b) \<noteq> []"
proof (cases rule: start_setup_cases [of b env])
  case (find_raised e b1 t1)
  with assms show ?thesis by simp
next
  case (no_endpoints b1 t1)
  with assms show ?thesis by simp
next
  case (claim_raised e b1' t1' b2 t2)
  then show ?thesis using claim_frame(8) [of env b1' "Raised e" b2 t2] by (simp add: out_simps)
next
  case (pty_raised e b1' t1' b2 t2 b3 t3)
  then show ?thesis using claim_frame(8) [of env b1' Returned b2 t2] by (simp add: out_simps)
next
  case (provisioned b1' t1' b2 t2 b3 t3)
  then show ?thesis by (simp add: out_simps)
qed

subsection \<open>Endpoint resolution\<close>

text \<open>
  C4. With an active configuration, \<open>_find_endpoints\<close> computes what the specification
  describes: it selects the first interface of class 7 in the order of iteration, or
  interface index 0, alternate setting 0 when none has that class (\<open>IndexError\<close> when
  there is none); it classifies each endpoint of that interface by bit 7 of its address
  and keeps the last inbound and the last outbound one. \<open>start\<close> then fails with its
  own \<open>RuntimeError\<close>, before any call on the device, if and only if the resolution
  succeeded and left both endpoints absent.
\<close>

theorem find_endpoints_resolves:
  assumes "get_active_configuration (dev b) = Inr cfg"
  shows "find_endpoints b =
           (case spec_resolve cfg of
              Inl e \<Rightarrow> (Raised e, b, [])
            | Inr (n, i, out) \<Rightarrow>
                (Returned, b\<lparr>iface := Some n, out_ep := out, in_ep := i\<rparr>, [])) \<and>
         (start env script b =
            (Finished (Raised (RuntimeError NO_ENDPOINTS)), state_of (find_endpoints b), []))
         = (\<exists>n. spec_resolve cfg = Inr (n, None, None))"
proof -
  have fe: "find_endpoints b =
           (case spec_resolve cfg of
              Inl e \<Rightarrow> (Raised e, b, [])
            | Inr (n, i, out) \<Rightarrow>
                (Returned, b\<lparr>iface := Some n, out_ep := out, in_ep := i\<rparr>, []))"
    using assms by (simp add: find_endpoints_resolve)
  have iff: "(start env script b =
            (Finished (Raised (RuntimeError NO_ENDPOINTS)), state_of (find_endpoints b), []))
         = (\<exists>n. spec_resolve cfg = Inr (n, None, None))"
  proof (cases "spec_resolve cfg")
    case (Inl e)
    then have "find_endpoints b = (Raised e, b, [])" using fe by simp
    then have "start env script b = (Finished (Raised e), b, [])"
      by (simp add: start_def start_setup_find_raised)
    moreover have "e = IndexError" using Inl by (rule spec_resolve_error)
    ultimately show ?thesis using Inl by simp
  next
    case (Inr r)
    obtain n i out where r: "r = (n, i, out)" by (cases r) auto
    define b1 where "b1 = b\<lparr>iface := Some n, out_ep := out, in_ep := i\<rparr>"
    have f1: "find_endpoints b = (Returned, b1, [])"
      using fe Inr r by (simp add: b1_def)
    show ?thesis
    proof (cases "out = None \<and> i = None")
      case True
      then have "out_ep b1 = None \<and> in_ep b1 = None" by (simp add: b1_def)
      then have "start_setup env b = (Raised (RuntimeError NO_ENDPOINTS), b1, [])"
        using f1 by (rule start_setup_no_endpoints [rotated]) 
      then show ?thesis using f1 Inr r True by (simp add: start_def out_simps)
    next
      case False
      then have ne: "\<not> (out_ep b1 = None \<and> in_ep b1 = None)" by (simp add: b1_def)
      have "trace_of (start_setup env b) \<noteq> []"
        using f1 ne by (rule start_setup_trace_nonempty)
      then have "trace_of (start env script b) \<noteq> []"
        using start_trace_prefix [of env script b] by auto
      then have "start env script b \<noteq>
            (Finished (Raised (RuntimeError NO_ENDPOINTS)), state_of (find_endpoints b), [])"
        by (auto simp add: out_simps)
      then show ?thesis using Inr r False by auto
    qed
  qed
  from fe iff show ?thesis by blast
qed


theorem find_endpoints_resolves_witness:
  "get_active_configuration (dev (init composite_device))
     = Inr [[vendor_interface], [printer_interface2]] \<and>
   find_endpoints (init composite_device) =
     (Returned,
      (init composite_device)\<lparr>iface := Some 1, out_ep := Some ep_out, in_ep := Some ep_in2\<rparr>,
      []) \<and>
   start quiet_env [] (init composite_device) \<noteq>
     (Finished (Raised (RuntimeError NO_ENDPOINTS)),
      state_of (find_endpoints (init composite_device)), [])"
proof -
  have h: "get_active_configuration (dev (init composite_device))
             = Inr [[vendor_interface], [printer_interface2]]"
    by (simp add: init_def composite_device_def)
  have r: "spec_resolve [[vendor_interface], [printer_interface2]]
             = Inr (1, Some ep_in2, Some ep_out)"
    by (simp add: spec_resolve_def spec_select_interface_def spec_last_endpoint_def
        vendor_interface_def printer_interface2_def ep_in_def ep_out_def ep_in2_def)
  note t = find_endpoints_resolves [OF h, of quiet_env "[]"]
  have c1: "find_endpoints (init composite_device) =
          (Returned,
           (init composite_device)\<lparr>iface := Some 1, out_ep := Some ep_out, in_ep := Some ep_in2\<rparr>,
           [])"
    using t [THEN conjunct1] by (simp add: r)
  have c2: "start quiet_env [] (init composite_device) \<noteq>
          (Finished (Raised (RuntimeError NO_ENDPOINTS)),
           state_of (find_endpoints (init composite_device)), [])"
    using t [THEN conjunct2] by (simp add: r)
  from h c1 c2 show ?thesis by blast
qed

subsection \<open>The stop flag\<close>

text \<open>
  C9. The stop flag is never cleared: from a state in which it is set, every method of
  the session (\<open>_find_endpoints\<close>, \<open>_claim\<close>, \<open>_release\<close>, \<open>_create_pty\<close>, \<open>stop\<close>,
  \<open>start\<close>, the launcher's call of \<open>start\<close>, and both loops) leaves it set. A stopped
  session does not run again: both loops return at once without a single library call,
  and \<open>start\<close> ends after its setup with no forwarding. Only a new object, built by
  \<open>__init__\<close>, has the flag clear.
\<close>

theorem stop_flag_irreversible:
  assumes "should_stop b"
  shows "should_stop (state_of (find_endpoints b)) \<and>
         should_stop (state_of (claim env b)) \<and>
         should_stop (state_of (release env b)) \<and>
         should_stop (state_of (create_pty env b)) \<and>
         should_stop (state_of (stop env b)) \<and>
         should_stop (state_of (start env script b)) \<and>
         should_stop (state_of (main_start env script b)) \<and>
         usb_reader_loop b uscript = (Finished Returned, b, []) \<and>
         pty_writer_loop b script = (Finished Returned, b, []) \<and>
         start env script b =
           (Finished (fst (start_setup env b)), state_of (start_setup env b),
            trace_of (start_setup env b)) \<and>
         \<not> should_stop (init d)"
proof -
  have fe: "should_stop (state_of (find_endpoints b))"
    using assms find_endpoints_frame(2) [of b]
    by (cases "find_endpoints b") (simp add: out_simps)
  have cl: "should_stop (state_of (claim env b))"
    using assms claim_frame(1) [of env b]
    by (cases "claim env b") (simp add: out_simps)
  have re: "should_stop (state_of (release env b))"
    using assms by (simp add: release_eq out_simps)
  have cp: "should_stop (state_of (create_pty env b))"
    using assms create_pty_frame(1) [of env b]
    by (cases "create_pty env b") (simp add: out_simps)
  have st: "should_stop (state_of (stop env b))"
    using assms by (simp add: stop_eq out_simps)
  have sa: "start env script b =
              (Finished (fst (start_setup env b)), state_of (start_setup env b),
               trace_of (start_setup env b))"
    using assms by (rule start_stopped)
  have ss: "should_stop (state_of (start_setup env b))"
    using assms by (simp add: start_setup_flag)
  have sf: "should_stop (state_of (start env script b))"
    using ss by (simp add: sa out_simps)
  have ms: "should_stop (state_of (main_start env script b))"
    using ss by (cases "fst (start_setup env b)") (simp_all add: main_start_def sa stop_eq out_simps)
  have ul: "usb_reader_loop b uscript = (Finished Returned, b, [])"
    using assms by (simp add: usb_reader_loop_def usb_reader_iterate_stopped)
  have pl: "pty_writer_loop b script = (Finished Returned, b, [])"
    using assms by (simp add: pty_writer_loop_def pty_writer_iterate_stopped)
  have ini: "\<not> should_stop (init d)"
    by (simp add: init_def)
  from fe cl re cp st sf ms ul pl sa ini show ?thesis by blast
qed

theorem stop_flag_irreversible_witness:
  "should_stop stopped_bridge \<and>
   should_stop (state_of (start quiet_env [] stopped_bridge)) \<and>
   pty_writer_loop stopped_bridge [] = (Finished Returned, stopped_bridge, [])"
proof -
  have h: "should_stop stopped_bridge"
    by (simp add: stopped_bridge_def stop_eq init_def out_simps)
  show ?thesis
    using h stop_flag_irreversible [OF h, of quiet_env "[]" "[]" printer_device] by blast
qed

subsection \<open>The sample runs\<close>

lemma find_endpoints_printer: "find_endpoints (init printer_device) = (Returned, printer_found, [])"
  by (simp add: find_endpoints_resolve spec_resolve_def spec_select_interface_def
      spec_last_endpoint_def init_def printer_device_def printer_interface_def ep_in_def
      ep_out_def printer_found_def)

lemma find_endpoints_in_only: "find_endpoints (init in_only_device) = (Returned, in_only_found, [])"
  by (simp add: find_endpoints_resolve spec_resolve_def spec_select_interface_def
      spec_last_endpoint_def init_def in_only_device_def in_only_interface_def ep_in_def
      in_only_found_def)

lemma claim_printer_quiet:
  "claim quiet_env printer_found =
     (Returned, printer_found\<lparr>orig_kernel_attached := True\<rparr>,
      [IsKernelDriverActive (Some 0), DetachKernelDriver (Some 0),
       Print (LogDetached (Some 0)), ClaimInterface (Some 0)])"
  by (simp add: claim_def act_defs quiet_env_def printer_found_def)

lemma claim_in_only_quiet:
  "claim quiet_env in_only_found =
     (Returned, in_only_found\<lparr>orig_kernel_attached := True\<rparr>,
      [IsKernelDriverActive (Some 0), DetachKernelDriver (Some 0),
       Print (LogDetached (Some 0)), ClaimInterface (Some 0)])"
  by (simp add: claim_def act_defs quiet_env_def in_only_found_def)

lemma create_pty_quiet:
  "create_pty quiet_env b =
     (Returned, b\<lparr>master_fd := Some 3, slave_name := Some ''/dev/pts/5''\<rparr>,
      [OpenPty, TtyName 4, Close 4])"
  by (simp add: create_pty_def act_defs quiet_env_def)


subsection \<open>Claiming the interface\<close>

lemma claim_query_unsupported:
  assumes "is_NotImplemented_or_Attribute e"
  shows "claim (env\<lparr>is_kernel_driver_active_r := Inl e\<rparr>) b =
           claim (env\<lparr>is_kernel_driver_active_r := Inr False\<rparr>) b"
  using assms by (simp add: claim_def act_defs)

lemma claim_not_attached:
  "claim (env\<lparr>is_kernel_driver_active_r := Inr False\<rparr>) b =
     (case claim_interface_r env of None \<Rightarrow> Returned | Some x \<Rightarrow> Raised x, b,
      [IsKernelDriverActive (iface b), ClaimInterface (iface b)])"
  by (simp add: claim_def act_defs split: option.splits)

lemma claim_detach_raises:
  "claim (env\<lparr>is_kernel_driver_active_r := Inr True, detach_kernel_driver_r := Some e\<rparr>) b =
     (if is_USBError e
      then (case claim_interface_r env of None \<Rightarrow> Returned | Some x \<Rightarrow> Raised x, b,
            [IsKernelDriverActive (iface b), DetachKernelDriver (iface b),
             Print (LogDetachFailed e), ClaimInterface (iface b)])
      else if is_NotImplemented_or_Attribute e
      then (case claim_interface_r env of None \<Rightarrow> Returned | Some x \<Rightarrow> Raised x, b,
            [IsKernelDriverActive (iface b), DetachKernelDriver (iface b),
             ClaimInterface (iface b)])
      else (Raised e, b, [IsKernelDriverActive (iface b), DetachKernelDriver (iface b)]))"
  by (simp add: claim_def act_defs split: option.splits)

lemma claim_interface_raises:
  assumes "claim_interface_r env = Some x"
    and "ClaimInterface (iface b) \<in> set (trace_of (claim env b))"
  shows "fst (claim env b) = Raised x"
  using assms
  by (auto simp add: claim_def act_defs trace_of_def
      split: sum.splits option.splits bool.splits if_splits)

lemma start_claim_raised:
  assumes "find_endpoints b0 = (Returned, b, t1)" and "\<not> (out_ep b = None \<and> in_ep b = None)"
    and "fst (claim env b) = Raised x"
  shows "start env script b0 =
           (Finished (Raised x), state_of (claim env b), t1 @ trace_of (claim env b))"
proof -
  obtain b2 t2 where c: "claim env b = (Raised x, b2, t2)"
    using assms(3) by (cases "claim env b") auto
  have "start_setup env b0 = (Raised x, b2, t1 @ t2)"
    using assms(1,2) c by (rule start_setup_claim_raised)
  then show ?thesis by (simp add: start_def c out_simps)
qed

text \<open>
  C7, as the code has it. In \<open>_claim\<close>: when the query \<open>is_kernel_driver_active\<close>
  raises \<open>NotImplementedError\<close> or \<open>AttributeError\<close> (unsupported on the platform),
  the claim behaves exactly as if the query had answered "not attached", and goes on to
  the USB-level claim. When the driver is attached and detaching it raises, the class
  of the exception decides: a \<open>USBError\<close> is logged, and the claim goes on to the
  USB-level claim; a \<open>NotImplementedError\<close> or \<open>AttributeError\<close> is swallowed with no
  log line, and the claim goes on likewise; anything else propagates out of \<open>_claim\<close>
  before the USB-level claim. In the first two cases the flag stays clear and the
  answer of the USB-level claim alone decides the outcome. When the USB-level claim is
  reached and raises, \<open>_claim\<close> raises that exception, and \<open>start\<close> ends with it after
  the calls of \<open>_claim\<close> only: no terminal is opened, no forwarding runs.
\<close>

theorem claim_failure_classes:
  "claim (env\<lparr>is_kernel_driver_active_r := Inl NotImplementedError\<rparr>) b =
     claim (env\<lparr>is_kernel_driver_active_r := Inr False\<rparr>) b \<and>
   claim (env\<lparr>is_kernel_driver_active_r := Inl AttributeError\<rparr>) b =
     claim (env\<lparr>is_kernel_driver_active_r := Inr False\<rparr>) b \<and>
   claim (env\<lparr>is_kernel_driver_active_r := Inr False\<rparr>) b =
     (case claim_interface_r env of None \<Rightarrow> Returned | Some x \<Rightarrow> Raised x, b,
      [IsKernelDriverActive (iface b), ClaimInterface (iface b)]) \<and>
   claim (env\<lparr>is_kernel_driver_active_r := Inr True, detach_kernel_driver_r := Some e\<rparr>) b =
     (if is_USBError e
      then (case claim_interface_r env of None \<Rightarrow> Returned | Some x \<Rightarrow> Raised x, b,
            [IsKernelDriverActive (iface b), DetachKernelDriver (iface b),
             Print (LogDetachFailed e), ClaimInterface (iface b)])
      else if is_NotImplemented_or_Attribute e
      then (case claim_interface_r env of None \<Rightarrow> Returned | Some x \<Rightarrow> Raised x, b,
            [IsKernelDriverActive (iface b), DetachKernelDriver (iface b),
             ClaimInterface (iface b)])
      else (Raised e, b, [IsKernelDriverActive (iface b), DetachKernelDriver (iface b)])) \<and>
   (claim_interface_r env = Some x \<and>
    ClaimInterface (iface b) \<in> set (trace_of (claim env b)) \<longrightarrow>
      fst (claim env b) = Raised x) \<and>
   (find_endpoints b0 = (Returned, b, t1) \<and> \<not> (out_ep b = None \<and> in_ep b = None) \<and>
    fst (claim env b) = Raised x \<longrightarrow>
      start env script b0 =
        (Finished (Raised x), state_of (claim env b), t1 @ trace_of (claim env b)))"
proof -
  have q1: "claim (env\<lparr>is_kernel_driver_active_r := Inl NotImplementedError\<rparr>) b =
          claim (env\<lparr>is_kernel_driver_active_r := Inr False\<rparr>) b"
    by (rule claim_query_unsupported) simp
  have q2: "claim (env\<lparr>is_kernel_driver_active_r := Inl AttributeError\<rparr>) b =
          claim (env\<lparr>is_kernel_driver_active_r := Inr False\<rparr>) b"
    by (rule claim_query_unsupported) simp
  note q3 = claim_not_attached [where env = env and b = b]
  note d = claim_detach_raises [where env = env and e = e and b = b]
  have c: "fst (claim env b) = Raised x"
    if "claim_interface_r env = Some x \<and>
        ClaimInterface (iface b) \<in> set (trace_of (claim env b))"
    using that claim_interface_raises by blast
  have s: "start env script b0 =
        (Finished (Raised x), state_of (claim env b), t1 @ trace_of (claim env b))"
    if "find_endpoints b0 = (Returned, b, t1) \<and> \<not> (out_ep b = None \<and> in_ep b = None) \<and>
        fst (claim env b) = Raised x"
    using that start_claim_raised by blast
  from q1 q2 q3 d c s show ?thesis by blast
qed

lemma claim_printer_busy:
  "claim busy_env printer_found =
     (Raised (USBError 16), printer_found\<lparr>orig_kernel_attached := True\<rparr>,
      [IsKernelDriverActive (Some 0), DetachKernelDriver (Some 0),
       Print (LogDetached (Some 0)), ClaimInterface (Some 0)])"
  by (simp add: claim_def act_defs busy_env_def quiet_env_def printer_found_def)

theorem claim_failure_classes_witness:
  "claim_interface_r busy_env = Some (USBError 16) \<and>
   ClaimInterface (iface printer_found) \<in> set (trace_of (claim busy_env printer_found)) \<and>
   find_endpoints (init printer_device) = (Returned, printer_found, []) \<and>
   \<not> (out_ep printer_found = None \<and> in_ep printer_found = None) \<and>
   fst (claim busy_env printer_found) = Raised (USBError 16) \<and>
   start busy_env [] (init printer_device) =
     (Finished (Raised (USBError 16)), printer_found\<lparr>orig_kernel_attached := True\<rparr>,
      [IsKernelDriverActive (Some 0), DetachKernelDriver (Some 0),
       Print (LogDetached (Some 0)), ClaimInterface (Some 0)])"
proof -
  have h1: "claim_interface_r busy_env = Some (USBError 16)"
    by (simp add: busy_env_def quiet_env_def)
  have h2: "ClaimInterface (iface printer_found) \<in> set (trace_of (claim busy_env printer_found))"
  proof -
    have "iface printer_found = Some 0" by (simp add: printer_found_def)
    then show ?thesis by (simp add: claim_printer_busy out_simps)
  qed
  have h3: "find_endpoints (init printer_device) = (Returned, printer_found, [])"
    by (rule find_endpoints_printer)
  have h4: "\<not> (out_ep printer_found = None \<and> in_ep printer_found = None)"
    by (simp add: printer_found_def)
  note t = claim_failure_classes [where env = busy_env and b = printer_found
      and x = "USBError 16" and ?b0.0 = "init printer_device" and ?t1.0 = "[]"
      and script = "[]"]
  have c1: "fst (claim busy_env printer_found) = Raised (USBError 16)"
    using t h1 h2 by blast
  have c2: "start busy_env [] (init printer_device) =
     (Finished (Raised (USBError 16)), state_of (claim busy_env printer_found),
      [] @ trace_of (claim busy_env printer_found))"
    using t h3 h4 c1 by blast
  from h1 h2 h3 h4 c1 c2 show ?thesis
    by (simp add: claim_printer_busy out_simps)
qed

text \<open>
  C7, as stated, fails: on the sample printer, with the kernel driver attached and
  \<open>detach_kernel_driver\<close> raising \<open>NotImplementedError\<close>, the claim goes on, but the
  failure to detach is not logged: the trace holds no \<open>print\<close>.
\<close>

theorem detach_failure_not_logged_counterexample:
  "is_kernel_driver_active_r detach_unsupported_env = Inr True \<and>
   detach_kernel_driver_r detach_unsupported_env = Some NotImplementedError \<and>
   claim detach_unsupported_env printer_found =
     (Returned, printer_found,
      [IsKernelDriverActive (Some 0), DetachKernelDriver (Some 0), ClaimInterface (Some 0)])"
  by (simp add: claim_def act_defs detach_unsupported_env_def quiet_env_def printer_found_def)

subsection \<open>A failure of the provisioning\<close>

lemma create_pty_fail:
  "create_pty pty_fail_env b = (Raised (OSError 24), b, [OpenPty])"
  by (simp add: create_pty_def pty_fail_env_def)

lemma claim_printer_pty_fail:
  "claim pty_fail_env printer_found =
     (Returned, printer_found\<lparr>orig_kernel_attached := True\<rparr>,
      [IsKernelDriverActive (Some 0), DetachKernelDriver (Some 0),
       Print (LogDetached (Some 0)), ClaimInterface (Some 0)])"
  by (simp add: claim_def act_defs pty_fail_env_def quiet_env_def printer_found_def)

text \<open>
  C1, as the code has it. When the interface claim has succeeded and \<open>_create_pty\<close>
  raises, \<open>start\<close> propagates that exception without calling the release path: its
  trace holds no \<open>release_interface\<close>, and the stop flag is still clear. The release
  happens in the launcher: the \<open>except\<close> clause of \<open>main\<close> prints the error and calls
  \<open>stop\<close>, which releases the interface (and reattaches the kernel driver if one was
  detached) before the process exits with status 3.
\<close>

theorem provision_failure_released_by_launcher:
  assumes "find_endpoints b = (Returned, b1, t1)"
    and "\<not> (out_ep b1 = None \<and> in_ep b1 = None)"
    and "claim env b1 = (Returned, b2, t2)"
    and "create_pty env b2 = (Raised e, b3, t3)"
    and "\<not> should_stop b"
  shows "start env script b = (Finished (Raised e), b3, t1 @ t2 @ t3) \<and>
         (\<forall>i. ReleaseInterface i \<notin> set (t1 @ t2 @ t3)) \<and>
         \<not> should_stop b3 \<and>
         main_start env script b =
           (Exit 3, b3\<lparr>should_stop := True\<rparr>,
            t1 @ t2 @ t3 @ [Print (LogMainError e)] @ trace_of (stop env b3)) \<and>
         ReleaseInterface (iface b3) \<in> set (trace_of (stop env b3)) \<and>
         (AttachKernelDriver (iface b3) \<in> set (trace_of (stop env b3)))
           = orig_kernel_attached b3"
proof -
  have su: "start_setup env b = (Raised e, b3, t1 @ t2 @ t3)"
    using assms(1-4) by (rule start_setup_pty_raised)
  then have st: "start env script b = (Finished (Raised e), b3, t1 @ t2 @ t3)"
    by (simp add: start_def)
  have "t1 = []"
    using assms(1) by (rule find_endpoints_frame(1))
  then have norel: "\<forall>i. ReleaseInterface i \<notin> set (t1 @ t2 @ t3)"
    using claim_frame(7) [OF assms(3)] create_pty_frame(7) [OF assms(4)] by simp
  have "should_stop b3 = should_stop b"
    using find_endpoints_frame(2) [OF assms(1)] claim_frame(1) [OF assms(3)]
      create_pty_frame(1) [OF assms(4)] by simp
  then have live: "\<not> should_stop b3"
    using assms(5) by simp
  have ms: "main_start env script b =
           (Exit 3, b3\<lparr>should_stop := True\<rparr>,
            t1 @ t2 @ t3 @ [Print (LogMainError e)] @ trace_of (stop env b3))"
    using live by (simp add: main_start_def st stop_eq out_simps)
  have rel: "ReleaseInterface (iface b3) \<in> set (trace_of (stop env b3))"
    using live by (simp add: stop_eq out_simps)
  have att: "(AttachKernelDriver (iface b3) \<in> set (trace_of (stop env b3)))
           = orig_kernel_attached b3"
    using live by (simp add: stop_eq out_simps split: option.splits)
  from st norel live ms rel att show ?thesis by blast
qed

theorem provision_failure_released_by_launcher_witness:
  "find_endpoints (init printer_device) = (Returned, printer_found, []) \<and>
   \<not> (out_ep printer_found = None \<and> in_ep printer_found = None) \<and>
   claim pty_fail_env printer_found =
     (Returned, printer_found\<lparr>orig_kernel_attached := True\<rparr>,
      [IsKernelDriverActive (Some 0), DetachKernelDriver (Some 0),
       Print (LogDetached (Some 0)), ClaimInterface (Some 0)]) \<and>
   create_pty pty_fail_env (printer_found\<lparr>orig_kernel_attached := True\<rparr>) =
     (Raised (OSError 24), printer_found\<lparr>orig_kernel_attached := True\<rparr>, [OpenPty]) \<and>
   \<not> should_stop (init printer_device) \<and>
   main_start pty_fail_env [] (init printer_device) =
     (Exit 3, printer_found\<lparr>orig_kernel_attached := True, should_stop := True\<rparr>,
      [IsKernelDriverActive (Some 0), DetachKernelDriver (Some 0),
       Print (LogDetached (Some 0)), ClaimInterface (Some 0), OpenPty,
       Print (LogMainError (OSError 24)), Print LogStopping, ReleaseInterface (Some 0),
       AttachKernelDriver (Some 0), Print LogStopped])"
proof -
  have h1: "find_endpoints (init printer_device) = (Returned, printer_found, [])"
    by (rule find_endpoints_printer)
  have h2: "\<not> (out_ep printer_found = None \<and> in_ep printer_found = None)"
    by (simp add: printer_found_def)
  note h3 = claim_printer_pty_fail
  have h4: "create_pty pty_fail_env (printer_found\<lparr>orig_kernel_attached := True\<rparr>) =
     (Raised (OSError 24), printer_found\<lparr>orig_kernel_attached := True\<rparr>, [OpenPty])"
    by (rule create_pty_fail)
  have h5: "\<not> should_stop (init printer_device)"
    by (simp add: init_def)
  have "main_start pty_fail_env [] (init printer_device) =
           (Exit 3, printer_found\<lparr>orig_kernel_attached := True, should_stop := True\<rparr>,
            [] @ [IsKernelDriverActive (Some 0), DetachKernelDriver (Some 0),
              Print (LogDetached (Some 0)), ClaimInterface (Some 0)] @ [OpenPty] @
            [Print (LogMainError (OSError 24))] @
            trace_of (stop pty_fail_env (printer_found\<lparr>orig_kernel_attached := True\<rparr>)))"
    using provision_failure_released_by_launcher [OF h1 h2 h3 h4 h5, of "[]"] by simp
  then have c: "main_start pty_fail_env [] (init printer_device) =
     (Exit 3, printer_found\<lparr>orig_kernel_attached := True, should_stop := True\<rparr>,
      [IsKernelDriverActive (Some 0), DetachKernelDriver (Some 0),
       Print (LogDetached (Some 0)), ClaimInterface (Some 0), OpenPty,
       Print (LogMainError (OSError 24)), Print LogStopping, ReleaseInterface (Some 0),
       AttachKernelDriver (Some 0), Print LogStopped])"
    by (simp add: stop_eq out_simps printer_found_def init_def)
  from h1 h2 h3 h4 h5 c show ?thesis by blast
qed

text \<open>
  C1, as stated, fails: on the sample printer, with \<open>pty.openpty\<close> raising after a
  successful claim, \<open>start\<close> ends with that exception and has made no call of
  \<open>release_interface\<close>.
\<close>

theorem start_provision_failure_counterexample:
  "start pty_fail_env [] (init printer_device) =
     (Finished (Raised (OSError 24)), printer_found\<lparr>orig_kernel_attached := True\<rparr>,
      [IsKernelDriverActive (Some 0), DetachKernelDriver (Some 0),
       Print (LogDetached (Some 0)), ClaimInterface (Some 0), OpenPty]) \<and>
   ReleaseInterface (Some 0) \<notin> set (trace_of (start pty_fail_env [] (init printer_device)))"
proof -
  have "start_setup pty_fail_env (init printer_device) =
          (Raised (OSError 24), printer_found\<lparr>orig_kernel_attached := True\<rparr>,
           [] @ [IsKernelDriverActive (Some 0), DetachKernelDriver (Some 0),
             Print (LogDetached (Some 0)), ClaimInterface (Some 0)] @ [OpenPty])"
    by (rule start_setup_pty_raised [OF find_endpoints_printer _ claim_printer_pty_fail
          create_pty_fail]) (simp add: printer_found_def)
  then show ?thesis by (simp add: start_def out_simps)
qed

subsection \<open>After a successful setup\<close>

lemma pty_writer_body_no_out:
  "out_ep b = None \<Longrightarrow> UsbWrite a d tmo \<notin> set (snd (pty_writer_body b m obs))"
  by (simp add: pty_writer_body_def Let_def split: sum.splits option.splits)

lemma pty_writer_iterate_no_out:
  "out_ep b = None \<Longrightarrow> UsbWrite a d tmo \<notin> set (trace_of (pty_writer_iterate b m script))"
proof (induction script arbitrary: b)
  case Nil
  then show ?case by (simp add: out_simps)
next
  case (Cons obs rest)
  define b1 where "b1 = (if pty_stop_seen obs then b\<lparr>should_stop := True\<rparr> else b)"
  have o: "out_ep b1 = None" using Cons.prems by (simp add: b1_def)
  obtain ctl t where body: "pty_writer_body b1 m obs = (ctl, t)"
    by (cases "pty_writer_body b1 m obs") auto
  have t: "UsbWrite a d tmo \<notin> set t"
    using pty_writer_body_no_out [OF o, of a d tmo m obs] body by simp
  obtain p b2 t2 where r: "pty_writer_iterate b1 m rest = (p, b2, t2)"
    by (cases "pty_writer_iterate b1 m rest") auto
  have t2: "UsbWrite a d tmo \<notin> set t2"
    using Cons.IH [OF o] r by (simp add: out_simps)
  show ?case
    using t t2 body r
    by (cases ctl) (simp_all add: b1_def [symmetric] Let_def out_simps)
qed

lemma start_after_setup:
  assumes "start_setup env b = (Returned, b3, t)"
  shows "fst (start env script b) = fst (pty_writer_loop b3 script)"
    and "\<exists>rest. trace_of (start env script b) = t @ trace_of (pty_writer_loop b3 script) @ rest"
proof -
  obtain p b4 t4 where l: "pty_writer_loop b3 script = (p, b4, t4)"
    by (cases "pty_writer_loop b3 script") auto
  show "fst (start env script b) = fst (pty_writer_loop b3 script)"
    using assms l by (cases p) (simp_all add: start_def stop_eq)
  show "\<exists>rest. trace_of (start env script b) = t @ trace_of (pty_writer_loop b3 script) @ rest"
    using assms l by (cases p) (simp_all add: start_def stop_eq out_simps)
qed

lemma setup_thread_start:
  assumes "start_setup env b = (Returned, b3, t)"
  shows "(ThreadStart \<in> set t) = (in_ep b3 \<noteq> None)"
proof (cases rule: start_setup_cases [of b env])
  case (find_raised e b1 t1)
  with assms show ?thesis by simp
next
  case (no_endpoints b1 t1)
  with assms show ?thesis by simp
next
  case (claim_raised e b1 t1 b2 t2)
  with assms show ?thesis by simp
next
  case (pty_raised e b1 t1 b2 t2 b3 t3)
  with assms show ?thesis by simp
next
  case (provisioned b1 t1 b2 t2 b3' t3)
  have "t1 = []" using provisioned(1) by (rule find_endpoints_frame(1))
  moreover have "ThreadStart \<notin> set t2" using provisioned(3) by (rule claim_frame(6))
  moreover have "ThreadStart \<notin> set t3" using provisioned(4) by (rule create_pty_frame(6))
  ultimately show ?thesis
    using assms provisioned(5) by (auto split: if_splits)
qed

text \<open>
  C5. After a successful setup in \<open>start\<close>, the thread of the USB-read path has been
  started if and only if an inbound endpoint exists; the terminal-read loop runs in
  every case (its calls follow those of the setup, and \<open>start\<close> ends as that loop
  ends). With no outbound endpoint that loop never writes to the device: each chunk
  read from the terminal is answered by the warning alone, and the iteration continues.
\<close>

theorem start_runs_forwarding_paths:
  assumes "start_setup env b = (Returned, b3, t)"
  shows "(ThreadStart \<in> set t) = (in_ep b3 \<noteq> None) \<and>
         fst (start env script b) = fst (pty_writer_loop b3 script) \<and>
         (\<exists>rest. trace_of (start env script b)
                   = t @ trace_of (pty_writer_loop b3 script) @ rest) \<and>
         (out_ep b3 = None \<longrightarrow>
            (\<forall>a d tmo. UsbWrite a d tmo \<notin> set (trace_of (pty_writer_loop b3 script))) \<and>
            pty_writer_body b3 m
              \<lparr> pty_stop_seen = s, select_r = Inr True, os_read_r = Inr (x # xs),
                usb_write_r = w \<rparr>
              = (Continue,
                 [Select m 200, OsRead m 4096,
                  Print (LogNoOutEndpoint (length (take 4096 (x # xs))))]))"
proof -
  note a = setup_thread_start [OF assms]
  note b = start_after_setup [OF assms, of script]
  have c: "\<forall>a d tmo. UsbWrite a d tmo \<notin> set (trace_of (pty_writer_loop b3 script))"
    if "out_ep b3 = None"
    using that by (simp add: pty_writer_loop_def pty_writer_iterate_no_out)
  have d: "pty_writer_body b3 m
              \<lparr> pty_stop_seen = s, select_r = Inr True, os_read_r = Inr (x # xs),
                usb_write_r = w \<rparr>
              = (Continue,
                 [Select m 200, OsRead m 4096,
                  Print (LogNoOutEndpoint (length (take 4096 (x # xs))))])"
    if "out_ep b3 = None"
    using that by (simp add: pty_writer_body_def)
  from a b c d show ?thesis by blast
qed

lemma start_setup_in_only:
  "start_setup quiet_env (init in_only_device) =
     (Returned, in_only_running,
      [IsKernelDriverActive (Some 0), DetachKernelDriver (Some 0),
       Print (LogDetached (Some 0)), ClaimInterface (Some 0), OpenPty, TtyName 4, Close 4,
       Print (LogSlaveDevice (Some ''/dev/pts/5'')), Flush, ThreadStart])"
proof -
  have ne: "\<not> (out_ep in_only_found = None \<and> in_ep in_only_found = None)"
    by (simp add: in_only_found_def)
  show ?thesis
    using start_setup_provisioned [OF find_endpoints_in_only ne claim_in_only_quiet
        create_pty_quiet]
    by (simp add: in_only_running_def in_only_found_def quiet_env_def)
qed

theorem start_runs_forwarding_paths_witness:
  "start_setup quiet_env (init in_only_device) =
     (Returned, in_only_running,
      [IsKernelDriverActive (Some 0), DetachKernelDriver (Some 0),
       Print (LogDetached (Some 0)), ClaimInterface (Some 0), OpenPty, TtyName 4, Close 4,
       Print (LogSlaveDevice (Some ''/dev/pts/5'')), Flush, ThreadStart]) \<and>
   out_ep in_only_running = None \<and> in_ep in_only_running \<noteq> None \<and>
   fst (start quiet_env [typed_A] (init in_only_device)) = Running \<and>
   pty_writer_loop in_only_running [typed_A] =
     (Running, in_only_running,
      [Select (Some 3) 200, OsRead (Some 3) 4096, Print (LogNoOutEndpoint 1)]) \<and>
   UsbWrite 1 [0x41] 5000 \<notin> set (trace_of (pty_writer_loop in_only_running [typed_A]))"
proof -
  note h = start_setup_in_only
  have o: "out_ep in_only_running = None"
    by (simp add: in_only_running_def in_only_found_def)
  have i: "in_ep in_only_running \<noteq> None"
    by (simp add: in_only_running_def in_only_found_def)
  have l: "pty_writer_loop in_only_running [typed_A] =
     (Running, in_only_running,
      [Select (Some 3) 200, OsRead (Some 3) 4096, Print (LogNoOutEndpoint 1)])"
    by (simp add: pty_writer_loop_def pty_writer_body_def typed_A_def in_only_running_def
        in_only_found_def init_def)
  note t = start_runs_forwarding_paths [OF h, of "[typed_A]"]
  have r: "fst (start quiet_env [typed_A] (init in_only_device)) = Running"
    using t l by simp
  have u: "UsbWrite 1 [0x41] 5000 \<notin> set (trace_of (pty_writer_loop in_only_running [typed_A]))"
    using t o by blast
  from h o i r l u show ?thesis by blast
qed

subsection \<open>The USB-to-terminal loop\<close>

lemma usb_reader_body_read_error:
  assumes "in_ep b = Some ep"
  shows "usb_reader_body b n \<lparr> usb_stop_seen = s, usb_read_r = Inl e, os_write_r = w \<rparr> =
     (if is_USBError e
      then (Continue, [UsbRead (bEndpointAddress ep) n 200, Sleep])
      else (Break, [UsbRead (bEndpointAddress ep) n 200, Print (LogReaderError e)]))"
  using assms by (simp add: usb_reader_body_def USB_READ_TIMEOUT_def)

text \<open>
  C2, as the code has it. In \<open>_usb_reader_loop\<close>, a read that raises a \<open>USBError\<close>,
  a timeout or any other, is swallowed without a log line: the iteration sleeps and
  the loop goes on to the same read again. Only a read that raises something that is
  not a \<open>USBError\<close> is logged and ends the loop.
\<close>

theorem usb_read_errors:
  "usb_reader_body (b\<lparr>in_ep := Some ep\<rparr>) n
     \<lparr> usb_stop_seen = s, usb_read_r = Inl e, os_write_r = w \<rparr> =
     (if is_USBError e
      then (Continue, [UsbRead (bEndpointAddress ep) n 200, Sleep])
      else (Break, [UsbRead (bEndpointAddress ep) n 200, Print (LogReaderError e)])) \<and>
   usb_reader_iterate (b\<lparr>in_ep := Some ep, should_stop := False\<rparr>) n
     (\<lparr> usb_stop_seen = False, usb_read_r = Inl e, os_write_r = w \<rparr> # rest) =
     (if is_USBError e
      then (case usb_reader_iterate (b\<lparr>in_ep := Some ep, should_stop := False\<rparr>) n rest of
              (p, b2, t2) \<Rightarrow> (p, b2, [UsbRead (bEndpointAddress ep) n 200, Sleep] @ t2))
      else (Finished Returned, b\<lparr>in_ep := Some ep, should_stop := False\<rparr>,
            [UsbRead (bEndpointAddress ep) n 200, Print (LogReaderError e)]))"
proof
  show "usb_reader_body (b\<lparr>in_ep := Some ep\<rparr>) n
     \<lparr> usb_stop_seen = s, usb_read_r = Inl e, os_write_r = w \<rparr> =
     (if is_USBError e
      then (Continue, [UsbRead (bEndpointAddress ep) n 200, Sleep])
      else (Break, [UsbRead (bEndpointAddress ep) n 200, Print (LogReaderError e)]))"
    by (rule usb_reader_body_read_error) simp
next
  define live where "live = b\<lparr>in_ep := Some ep, should_stop := False\<rparr>"
  have ep: "in_ep live = Some ep" and run: "\<not> should_stop live"
    by (simp_all add: live_def)
  note body = usb_reader_body_read_error [OF ep, of n False e w]
  have "usb_reader_iterate live n
     (\<lparr> usb_stop_seen = False, usb_read_r = Inl e, os_write_r = w \<rparr> # rest) =
     (if is_USBError e
      then (case usb_reader_iterate live n rest of
              (p, b2, t2) \<Rightarrow> (p, b2, [UsbRead (bEndpointAddress ep) n 200, Sleep] @ t2))
      else (Finished Returned, live,
            [UsbRead (bEndpointAddress ep) n 200, Print (LogReaderError e)]))"
    using run by (simp add: body)
  then show "usb_reader_iterate (b\<lparr>in_ep := Some ep, should_stop := False\<rparr>) n
     (\<lparr> usb_stop_seen = False, usb_read_r = Inl e, os_write_r = w \<rparr> # rest) =
     (if is_USBError e
      then (case usb_reader_iterate (b\<lparr>in_ep := Some ep, should_stop := False\<rparr>) n rest of
              (p, b2, t2) \<Rightarrow> (p, b2, [UsbRead (bEndpointAddress ep) n 200, Sleep] @ t2))
      else (Finished Returned, b\<lparr>in_ep := Some ep, should_stop := False\<rparr>,
            [UsbRead (bEndpointAddress ep) n 200, Print (LogReaderError e)]))"
    by (simp only: live_def)
qed

text \<open>
  C2, as stated, fails: on the running sample printer, a read that raises a \<open>USBError\<close>
  with \<open>ENODEV\<close>, which is not a timeout, is neither logged nor the end of the loop;
  the loop reads again.
\<close>

theorem usb_error_not_logged_counterexample:
  "usb_reader_loop printer_running [device_gone, device_gone] =
     (Running, printer_running, [UsbRead 0x81 64 200, Sleep, UsbRead 0x81 64 200, Sleep]) \<and>
   usb_read_r device_gone = Inl (USBError ENODEV) \<and> ENODEV \<noteq> ETIMEDOUT"
  by (simp add: usb_reader_loop_def reader_bufsize_def usb_reader_body_def device_gone_def
      printer_running_def printer_found_def init_def ep_in_def USB_READ_TIMEOUT_def
      ENODEV_def ETIMEDOUT_def)

subsection \<open>The terminal-to-USB loop\<close>

lemma pty_writer_body_select_first:
  "\<exists>t. snd (pty_writer_body b m obs) = Select m 200 # t"
  by (simp add: pty_writer_body_def Let_def split: sum.splits option.splits)

lemma pty_writer_body_read_second:
  assumes "select_r obs = Inr True"
  shows "\<exists>t. snd (pty_writer_body b m obs) = Select m 200 # OsRead m 4096 # t"
  using assms by (simp add: pty_writer_body_def Let_def split: sum.splits option.splits)

lemma pty_writer_body_eof:
  assumes "select_r obs = Inr True" and "os_read_r obs = Inr []"
  shows "pty_writer_body b m obs = (Break, [Select m 200, OsRead m 4096])"
  using assms by (simp add: pty_writer_body_def)

lemma pty_writer_body_write_bound:
  assumes "UsbWrite a d tmo \<in> set (snd (pty_writer_body b m obs))"
  shows "length d \<le> 4096 \<and> d \<noteq> [] \<and> tmo = 5000"
  using assms
  by (auto simp add: pty_writer_body_def Let_def USB_WRITE_TIMEOUT_def
      split: sum.splits option.splits if_splits)

lemma pty_writer_body_forward:
  assumes "select_r obs = Inr True" and "os_read_r obs = Inr (x # xs)"
    and "out_ep b = Some ep"
  shows "pty_writer_body b m obs =
         (case usb_write_r obs of
            None \<Rightarrow>
              (Continue,
               [Select m 200, OsRead m 4096,
                UsbWrite (bEndpointAddress ep) (take 4096 (x # xs)) 5000,
                Print (LogPtyToUsb (length (take 4096 (x # xs)))), Sleep])
          | Some e \<Rightarrow>
              if is_USBError e
              then (Continue,
                    [Select m 200, OsRead m 4096,
                     UsbWrite (bEndpointAddress ep) (take 4096 (x # xs)) 5000,
                     Print (LogWriteError e), Sleep])
              else (Raise e,
                    [Select m 200, OsRead m 4096,
                     UsbWrite (bEndpointAddress ep) (take 4096 (x # xs)) 5000]))"
  using assms by (simp add: pty_writer_body_def USB_WRITE_TIMEOUT_def split: option.splits)

lemma pty_writer_body_calls:
  "Select f n \<in> set (snd (pty_writer_body b m obs)) \<Longrightarrow> f = m \<and> n = 200"
  "OsRead f n \<in> set (snd (pty_writer_body b m obs)) \<Longrightarrow> f = m \<and> n = 4096"
  by (auto simp add: pty_writer_body_def Let_def split: sum.splits option.splits if_splits)

lemma pty_writer_iterate_event:
  assumes "ev \<in> set (trace_of (pty_writer_iterate b m script))"
  shows "\<exists>b1 obs. ev \<in> set (snd (pty_writer_body b1 m obs))"
  using assms
proof (induction script arbitrary: b)
  case Nil
  then show ?case by (simp add: out_simps split: if_splits)
next
  case (Cons obs rest)
  define b1 where "b1 = (if pty_stop_seen obs then b\<lparr>should_stop := True\<rparr> else b)"
  obtain ctl t where body: "pty_writer_body b1 m obs = (ctl, t)"
    by (cases "pty_writer_body b1 m obs") auto
  obtain p b2 t2 where r: "pty_writer_iterate b1 m rest = (p, b2, t2)"
    by (cases "pty_writer_iterate b1 m rest") auto
  have "ev \<in> set t \<or> ev \<in> set t2"
    using Cons.prems body r
    by (cases ctl) (auto simp add: b1_def [symmetric] Let_def out_simps split: if_splits)
  then show ?case
  proof
    assume "ev \<in> set t"
    then have "ev \<in> set (snd (pty_writer_body b1 m obs))" using body by simp
    then show ?thesis by blast
  next
    assume "ev \<in> set t2"
    then have "ev \<in> set (trace_of (pty_writer_iterate b1 m rest))"
      using r by (simp add: out_simps)
    then show ?thesis by (rule Cons.IH)
  qed
qed

lemma pty_writer_loop_step:
  assumes "\<not> should_stop b" and "\<not> pty_stop_seen obs"
  shows "pty_writer_loop b (obs # rest) =
           (case pty_writer_body b (master_fd b) obs of
              (Continue, t) \<Rightarrow>
                (case pty_writer_loop b rest of (p, b2, t2) \<Rightarrow> (p, b2, t @ t2))
            | (Break, t) \<Rightarrow> (Finished Returned, b, t)
            | (Raise e, t) \<Rightarrow> (Finished (Raised e), b, t))"
  unfolding pty_writer_loop_def using assms by simp

text \<open>
  C8. In \<open>_pty_writer_loop\<close>, on a session not stopped: every iteration starts with
  \<open>select\<close> on the master descriptor with a timeout of 200 ms; when the descriptor is
  readable it calls \<open>os.read\<close> on it for at most 4096 bytes; zero bytes end the loop;
  with an outbound endpoint the bytes read go to \<open>dev.write\<close> with a timeout of
  5000 ms; a \<open>USBError\<close> from that write is logged and the loop continues with the
  next iteration. Over a whole run of the loop, every \<open>select\<close> and every \<open>os.read\<close>
  is on the master descriptor with those arguments, and no write carries more than
  4096 bytes or another timeout.
\<close>

theorem pty_writer_loop_iteration:
  assumes "\<not> should_stop b" and "\<not> pty_stop_seen obs"
  shows
    "(\<exists>t. trace_of (pty_writer_loop b (obs # rest)) = Select (master_fd b) 200 # t) \<and>
     (select_r obs = Inr True \<longrightarrow>
        (\<exists>t. trace_of (pty_writer_loop b (obs # rest))
              = Select (master_fd b) 200 # OsRead (master_fd b) 4096 # t)) \<and>
     (select_r obs = Inr True \<and> os_read_r obs = Inr [] \<longrightarrow>
        pty_writer_loop b (obs # rest)
          = (Finished Returned, b, [Select (master_fd b) 200, OsRead (master_fd b) 4096])) \<and>
     (select_r obs = Inr True \<and> os_read_r obs = Inr (x # xs) \<and> out_ep b = Some ep \<and>
      usb_write_r obs = None \<longrightarrow>
        pty_writer_loop b (obs # rest)
          = (case pty_writer_loop b rest of
               (p, b2, t2) \<Rightarrow>
                 (p, b2,
                  [Select (master_fd b) 200, OsRead (master_fd b) 4096,
                   UsbWrite (bEndpointAddress ep) (take 4096 (x # xs)) 5000,
                   Print (LogPtyToUsb (length (take 4096 (x # xs)))), Sleep] @ t2))) \<and>
     (select_r obs = Inr True \<and> os_read_r obs = Inr (x # xs) \<and> out_ep b = Some ep \<and>
      usb_write_r obs = Some (USBError k) \<longrightarrow>
        pty_writer_loop b (obs # rest)
          = (case pty_writer_loop b rest of
               (p, b2, t2) \<Rightarrow>
                 (p, b2,
                  [Select (master_fd b) 200, OsRead (master_fd b) 4096,
                   UsbWrite (bEndpointAddress ep) (take 4096 (x # xs)) 5000,
                   Print (LogWriteError (USBError k)), Sleep] @ t2))) \<and>
     (\<forall>f n. Select f n \<in> set (trace_of (pty_writer_loop b script)) \<longrightarrow>
        f = master_fd b \<and> n = 200) \<and>
     (\<forall>f n. OsRead f n \<in> set (trace_of (pty_writer_loop b script)) \<longrightarrow>
        f = master_fd b \<and> n = 4096) \<and>
     (\<forall>a d tmo. UsbWrite a d tmo \<in> set (trace_of (pty_writer_loop b script)) \<longrightarrow>
        length d \<le> 4096 \<and> tmo = 5000)"
proof -
  note step = pty_writer_loop_step [OF assms, of rest]
  obtain ctl t where body: "pty_writer_body b (master_fd b) obs = (ctl, t)"
    by (cases "pty_writer_body b (master_fd b) obs") auto
  obtain p b2 t2 where r: "pty_writer_loop b rest = (p, b2, t2)"
    by (cases "pty_writer_loop b rest") auto
  have tr: "\<exists>u. trace_of (pty_writer_loop b (obs # rest)) = t @ u"
    using step body r by (cases ctl) (simp_all add: out_simps)
  have c1: "\<exists>t. trace_of (pty_writer_loop b (obs # rest)) = Select (master_fd b) 200 # t"
    using tr pty_writer_body_select_first [of b "master_fd b" obs] body by auto
  have c2: "\<exists>t. trace_of (pty_writer_loop b (obs # rest))
              = Select (master_fd b) 200 # OsRead (master_fd b) 4096 # t"
    if "select_r obs = Inr True"
    using tr pty_writer_body_read_second [OF that, of b "master_fd b"] body by auto
  have c3: "pty_writer_loop b (obs # rest)
          = (Finished Returned, b, [Select (master_fd b) 200, OsRead (master_fd b) 4096])"
    if "select_r obs = Inr True \<and> os_read_r obs = Inr []"
    using that by (simp add: step pty_writer_body_eof)
  have c4: "pty_writer_loop b (obs # rest)
          = (case pty_writer_loop b rest of
               (p, b2, t2) \<Rightarrow>
                 (p, b2,
                  [Select (master_fd b) 200, OsRead (master_fd b) 4096,
                   UsbWrite (bEndpointAddress ep) (take 4096 (x # xs)) 5000,
                   Print (LogPtyToUsb (length (take 4096 (x # xs)))), Sleep] @ t2))"
    if "select_r obs = Inr True \<and> os_read_r obs = Inr (x # xs) \<and> out_ep b = Some ep \<and>
      usb_write_r obs = None"
  proof -
    have "pty_writer_body b (master_fd b) obs =
            (Continue,
             [Select (master_fd b) 200, OsRead (master_fd b) 4096,
              UsbWrite (bEndpointAddress ep) (take 4096 (x # xs)) 5000,
              Print (LogPtyToUsb (length (take 4096 (x # xs)))), Sleep])"
      using that pty_writer_body_forward [of obs x xs b ep "master_fd b"] by simp
    then show ?thesis by (simp add: step)
  qed
  have c5: "pty_writer_loop b (obs # rest)
          = (case pty_writer_loop b rest of
               (p, b2, t2) \<Rightarrow>
                 (p, b2,
                  [Select (master_fd b) 200, OsRead (master_fd b) 4096,
                   UsbWrite (bEndpointAddress ep) (take 4096 (x # xs)) 5000,
                   Print (LogWriteError (USBError k)), Sleep] @ t2))"
    if "select_r obs = Inr True \<and> os_read_r obs = Inr (x # xs) \<and> out_ep b = Some ep \<and>
      usb_write_r obs = Some (USBError k)"
  proof -
    have "pty_writer_body b (master_fd b) obs =
            (Continue,
             [Select (master_fd b) 200, OsRead (master_fd b) 4096,
              UsbWrite (bEndpointAddress ep) (take 4096 (x # xs)) 5000,
              Print (LogWriteError (USBError k)), Sleep])"
      using that pty_writer_body_forward [of obs x xs b ep "master_fd b"] by simp
    then show ?thesis by (simp add: step)
  qed
  have c6: "f = master_fd b \<and> n = 200"
    if "Select f n \<in> set (trace_of (pty_writer_loop b script))" for f n
    using pty_writer_iterate_event [OF that [unfolded pty_writer_loop_def]]
      pty_writer_body_calls(1) by blast
  have c7: "f = master_fd b \<and> n = 4096"
    if "OsRead f n \<in> set (trace_of (pty_writer_loop b script))" for f n
    using pty_writer_iterate_event [OF that [unfolded pty_writer_loop_def]]
      pty_writer_body_calls(2) by blast
  have c8: "length d \<le> 4096 \<and> tmo = 5000"
    if "UsbWrite a d tmo \<in> set (trace_of (pty_writer_loop b script))" for a d tmo
    using pty_writer_iterate_event [OF that [unfolded pty_writer_loop_def]]
      pty_writer_body_write_bound by blast
  from c1 c2 c3 c4 c5 c6 c7 c8 show ?thesis by blast
qed


theorem pty_writer_loop_iteration_witness:
  "\<not> should_stop printer_running \<and>
   \<not> pty_stop_seen typed_AB \<and> \<not> pty_stop_seen write_fails \<and>
   \<not> pty_stop_seen terminal_closed \<and>
   master_fd printer_running = Some 3 \<and>
   pty_writer_loop printer_running [typed_AB, write_fails, terminal_closed] =
     (Finished Returned, printer_running,
      [Select (Some 3) 200, OsRead (Some 3) 4096, UsbWrite 0x01 [0x41, 0x42] 5000,
       Print (LogPtyToUsb 2), Sleep,
       Select (Some 3) 200, OsRead (Some 3) 4096, UsbWrite 0x01 [0x41, 0x42] 5000,
       Print (LogWriteError (USBError ENODEV)), Sleep,
       Select (Some 3) 200, OsRead (Some 3) 4096]) \<and>
   length [0x41 :: 8 word, 0x42] \<le> 4096"
proof -
  have live: "\<not> should_stop printer_running"
    by (simp add: printer_running_def printer_found_def init_def)
  have s1: "\<not> pty_stop_seen typed_AB" by (simp add: typed_AB_def)
  have s2: "\<not> pty_stop_seen write_fails" by (simp add: write_fails_def)
  have s3: "\<not> pty_stop_seen terminal_closed" by (simp add: terminal_closed_def)
  have fd: "master_fd printer_running = Some 3"
    by (simp add: printer_running_def)
  have ep: "out_ep printer_running = Some ep_out"
    by (simp add: printer_running_def printer_found_def)
  have a: "bEndpointAddress ep_out = 0x01" by (simp add: ep_out_def)
  have e3: "pty_writer_loop printer_running [terminal_closed] =
     (Finished Returned, printer_running, [Select (Some 3) 200, OsRead (Some 3) 4096])"
    using pty_writer_loop_iteration [OF live s3, of "[]"]
    by (simp add: terminal_closed_def fd)
  have e2: "pty_writer_loop printer_running [write_fails, terminal_closed] =
     (Finished Returned, printer_running,
      [Select (Some 3) 200, OsRead (Some 3) 4096, UsbWrite 0x01 [0x41, 0x42] 5000,
       Print (LogWriteError (USBError ENODEV)), Sleep,
       Select (Some 3) 200, OsRead (Some 3) 4096])"
    using pty_writer_loop_iteration [OF live s2, of "[terminal_closed]" "0x41" "[0x42]"
        ep_out ENODEV]
    by (simp add: write_fails_def fd ep a e3)
  have e1: "pty_writer_loop printer_running [typed_AB, write_fails, terminal_closed] =
     (Finished Returned, printer_running,
      [Select (Some 3) 200, OsRead (Some 3) 4096, UsbWrite 0x01 [0x41, 0x42] 5000,
       Print (LogPtyToUsb 2), Sleep,
       Select (Some 3) 200, OsRead (Some 3) 4096, UsbWrite 0x01 [0x41, 0x42] 5000,
       Print (LogWriteError (USBError ENODEV)), Sleep,
       Select (Some 3) 200, OsRead (Some 3) 4096])"
    using pty_writer_loop_iteration [OF live s1, of "[write_fails, terminal_closed]"
        "0x41" "[0x42]" ep_out]
    by (simp add: typed_AB_def fd ep a e2)
  have "UsbWrite 0x01 [0x41, 0x42] 5000 \<in> set (trace_of
          (pty_writer_loop printer_running [typed_AB, write_fails, terminal_closed]))"
    by (simp add: e1 out_simps)
  then have len: "length [0x41 :: 8 word, 0x42] \<le> 4096"
    using pty_writer_loop_iteration [OF live s1, of _ _ _ _ _
        "[typed_AB, write_fails, terminal_closed]"] by blast
  from live s1 s2 s3 fd e1 len show ?thesis by blast
qed

end
